theory Spec2Isabelle
  imports Complex_Main "HOL-Library.Word"
begin

chapter \<open>The model\<close>

section \<open>Strings\<close>

text \<open>
  JavaScript strings are modelled as \<^typ>\<open>string\<close>: one \<^typ>\<open>char\<close> is one UTF-16 code unit in
  the range U+0000 to U+00FF (Latin-1), and \<open>charCodeAt\<close> is \<^const>\<open>of_char\<close>. Strings with code
  units above U+00FF are outside the model.
\<close>

definition code :: "char \<Rightarrow> nat" where
  "code c = of_char c"

text \<open>\<open>String.prototype.toLowerCase\<close> in this range: the letters A to Z, and the letters
  U+00C0 to U+00DE except the multiplication sign U+00D7, move up by 32.\<close>

definition lowerChar :: "char \<Rightarrow> char" where
  "lowerChar c =
     (if (65 \<le> code c \<and> code c \<le> 90) \<or> (192 \<le> code c \<and> code c \<le> 222 \<and> code c \<noteq> 215)
      then char_of (code c + 32) else c)"

text \<open>\<open>String.prototype.toUpperCase\<close> in this range: the letters a to z, and the letters
  U+00E0 to U+00FE except the division sign U+00F7, move down by 32, and the sharp s
  U+00DF becomes \<open>SS\<close>. The upper-case forms of U+00B5 and U+00FF lie above U+00FF; the model
  leaves these two characters as they are.\<close>

definition upperChar :: "char \<Rightarrow> char" where
  "upperChar c =
     (if (97 \<le> code c \<and> code c \<le> 122) \<or> (224 \<le> code c \<and> code c \<le> 254 \<and> code c \<noteq> 247)
      then char_of (code c - 32) else c)"

definition upperChars :: "char \<Rightarrow> string" where
  "upperChars c = (if code c = 223 then ''SS'' else [upperChar c])"

definition toLowerCase :: "string \<Rightarrow> string" where
  "toLowerCase s = map lowerChar s"

definition toUpperCase :: "string \<Rightarrow> string" where
  "toUpperCase s = concat (map upperChars s)"

text \<open>White space, as \<open>trim\<close> strips it and the regular expression class \<open>\s\<close> matches it, in
  this range: tab, line feed, vertical tab, form feed, carriage return, space and the
  no-break space U+00A0.\<close>

definition isSpace :: "char \<Rightarrow> bool" where
  "isSpace c = (code c = 32 \<or> (9 \<le> code c \<and> code c \<le> 13) \<or> code c = 160)"

definition trim :: "string \<Rightarrow> string" where
  "trim s = rev (dropWhile isSpace (rev (dropWhile isSpace s)))"

text \<open>Truthiness of a string: the empty string is the only falsy one.\<close>

definition truthy :: "string \<Rightarrow> bool" where
  "truthy s = (s \<noteq> [])"

definition isDigit :: "char \<Rightarrow> bool" where
  "isDigit c = (48 \<le> code c \<and> code c \<le> 57)"

definition isAlpha :: "char \<Rightarrow> bool" where
  "isAlpha c = ((65 \<le> code c \<and> code c \<le> 90) \<or> (97 \<le> code c \<and> code c \<le> 122))"

text \<open>The class \<open>\w\<close>.\<close>

definition isWord :: "char \<Rightarrow> bool" where
  "isWord c = (isAlpha c \<or> isDigit c \<or> c = CHR ''_'')"

fun startsWith :: "string \<Rightarrow> string \<Rightarrow> bool" where
  "startsWith s [] = True"
| "startsWith [] (c # cs) = False"
| "startsWith (x # xs) (c # cs) = (x = c \<and> startsWith xs cs)"

definition endsWith :: "string \<Rightarrow> string \<Rightarrow> bool" where
  "endsWith s t = startsWith (rev s) (rev t)"

fun includesStr :: "string \<Rightarrow> string \<Rightarrow> bool" where
  "includesStr [] t = (t = [])"
| "includesStr (x # xs) t = (startsWith (x # xs) t \<or> includesStr xs t)"

fun joinWith :: "string \<Rightarrow> string list \<Rightarrow> string" where
  "joinWith sep [] = []"
| "joinWith sep [x] = x"
| "joinWith sep (x # y # ys) = x @ sep @ joinWith sep (y # ys)"

text \<open>Decimal rendering of a number inside a template string, and \<open>parseInt\<close> of a run of
  digits.\<close>

function showNat :: "nat \<Rightarrow> string" where
  "showNat n = (if n < 10 then [char_of (48 + n)] else showNat (n div 10) @ [char_of (48 + n mod 10)])"
  by pat_completeness auto
termination
  by (relation "measure id") auto

text \<open>The same for the numbers that grow large (times in milliseconds), on integers.\<close>

function showDigits :: "int \<Rightarrow> string" where
  "showDigits i =
     (if i < 10 then [char_of (48 + i)] else showDigits (i div 10) @ [char_of (48 + i mod 10)])"
  by pat_completeness auto
termination
  by (relation "measure nat") auto

definition showInt :: "int \<Rightarrow> string" where
  "showInt i = (if i < 0 then ''-'' @ showDigits (- i) else showDigits i)"

definition parseDigits :: "string \<Rightarrow> nat" where
  "parseDigits ds = foldl (\<lambda>n c. 10 * n + (code c - 48)) 0 ds"

section \<open>Regular expressions\<close>

text \<open>
  A backtracking matcher for the part of the regular expression language the program
  uses. A match state holds the character before the current position (for \<open>\b\<close> and
  \<open>^\<close>), the rest of the input, the characters taken so far (newest first) and the capture
  groups closed so far. \<open>step r st\<close> lists the states after a match of \<open>r\<close> from \<open>st\<close> in the
  order in which backtracking tries them, so its head is the match JavaScript reports.
  \<open>Star\<close> is the greedy \<open>*\<close>, \<open>Lazy\<close> is \<open>*?\<close>; both are iterated at most once per remaining
  character.
\<close>

datatype rx = Eps | Cls "char \<Rightarrow> bool" | Cat rx rx | Alt rx rx | Star rx | Lazy rx
  | Grp nat rx | WordB | Bol | Eol

datatype mstate = MState (prevChar: "char option") (rest: string) (taken: string)
  (groups: "(nat \<times> string) list")

fun greedyIter :: "string \<Rightarrow> (mstate \<Rightarrow> mstate list) \<Rightarrow> mstate \<Rightarrow> mstate list" where
  "greedyIter [] f st = [st]"
| "greedyIter (c # fuel) f st = concat (map (greedyIter fuel f) (f st)) @ [st]"

fun lazyIter :: "string \<Rightarrow> (mstate \<Rightarrow> mstate list) \<Rightarrow> mstate \<Rightarrow> mstate list" where
  "lazyIter [] f st = [st]"
| "lazyIter (c # fuel) f st = st # concat (map (lazyIter fuel f) (f st))"

definition atBoundary :: "mstate \<Rightarrow> bool" where
  "atBoundary st =
     ((case prevChar st of None \<Rightarrow> False | Some c \<Rightarrow> isWord c)
      \<noteq> (case rest st of [] \<Rightarrow> False | c # _ \<Rightarrow> isWord c))"

fun step :: "rx \<Rightarrow> mstate \<Rightarrow> mstate list" where
  "step Eps st = [st]"
| "step (Cls P) st =
     (case rest st of [] \<Rightarrow> []
      | c # cs \<Rightarrow> if P c then [MState (Some c) cs (c # taken st) (groups st)] else [])"
| "step (Cat a b) st = concat (map (step b) (step a st))"
| "step (Alt a b) st = step a st @ step b st"
| "step (Star a) st = greedyIter (rest st) (\<lambda>x. step a x) st"
| "step (Lazy a) st = lazyIter (rest st) (\<lambda>x. step a x) st"
| "step (Grp i a) st =
     map (\<lambda>x. MState (prevChar x) (rest x) (taken x @ taken st) ((i, rev (taken x)) # groups x))
       (step a (MState (prevChar st) (rest st) [] (groups st)))"
| "step WordB st = (if atBoundary st then [st] else [])"
| "step Bol st = (if prevChar st = None then [st] else [])"
| "step Eol st = (if rest st = [] then [st] else [])"

fun lit :: "string \<Rightarrow> rx" where
  "lit [] = Eps"
| "lit (c # cs) = Cat (Cls (\<lambda>x. x = c)) (lit cs)"

text \<open>A literal under the flag \<open>i\<close>.\<close>

fun litCI :: "string \<Rightarrow> rx" where
  "litCI [] = Eps"
| "litCI (c # cs) = Cat (Cls (\<lambda>x. lowerChar x = lowerChar c)) (litCI cs)"

definition Plus :: "rx \<Rightarrow> rx" where
  "Plus a = Cat a (Star a)"

definition Opt :: "rx \<Rightarrow> rx" where
  "Opt a = Alt a Eps"

fun seqs :: "rx list \<Rightarrow> rx" where
  "seqs [] = Eps"
| "seqs [a] = a"
| "seqs (a # b # bs) = Cat a (seqs (b # bs))"

fun alts :: "rx list \<Rightarrow> rx" where
  "alts [] = Cls (\<lambda>c. False)"
| "alts [a] = a"
| "alts (a # b # bs) = Alt a (alts (b # bs))"

text \<open>\<open>String.prototype.match\<close> and \<open>RegExp.prototype.test\<close> without the flag \<open>g\<close>: the
  leftmost start position that has a match, and there the first match.\<close>

fun searchFrom :: "rx \<Rightarrow> char option \<Rightarrow> string \<Rightarrow> mstate option" where
  "searchFrom r p s =
     (case step r (MState p s [] []) of
        m # _ \<Rightarrow> Some m
      | [] \<Rightarrow> (case s of [] \<Rightarrow> None | c # cs \<Rightarrow> searchFrom r (Some c) cs))"

definition rxMatch :: "rx \<Rightarrow> string \<Rightarrow> mstate option" where
  "rxMatch r s = searchFrom r None s"

definition rxTest :: "rx \<Rightarrow> string \<Rightarrow> bool" where
  "rxTest r s = (rxMatch r s \<noteq> None)"

text \<open>A capture group of a match; a group that took no part in it is the empty string
  here (\<open>undefined\<close> in JavaScript, which every use in the program replaces by \<open>''\<close>).\<close>

definition capture :: "nat \<Rightarrow> mstate \<Rightarrow> string" where
  "capture i m = (case map_of (groups m) i of None \<Rightarrow> [] | Some g \<Rightarrow> g)"

text \<open>\<open>String.prototype.replace\<close> with a regular expression under the flag \<open>g\<close> and a
  constant replacement. \<open>skip\<close> counts the characters of the current match still to be
  dropped.\<close>

fun replaceGo :: "rx \<Rightarrow> string \<Rightarrow> nat \<Rightarrow> char option \<Rightarrow> string \<Rightarrow> string" where
  "replaceGo r rep skip p [] =
     (if skip = 0 \<and> step r (MState p [] [] []) \<noteq> [] then rep else [])"
| "replaceGo r rep skip p (c # cs) =
     (if skip > 0 then replaceGo r rep (skip - 1) (Some c) cs
      else (case step r (MState p (c # cs) [] []) of
              [] \<Rightarrow> c # replaceGo r rep 0 (Some c) cs
            | m # _ \<Rightarrow>
                (if taken m = [] then rep @ c # replaceGo r rep 0 (Some c) cs
                 else rep @ replaceGo r rep (length (taken m) - 1) (Some c) cs)))"

definition replaceAll :: "rx \<Rightarrow> string \<Rightarrow> string \<Rightarrow> string" where
  "replaceAll r rep s = replaceGo r rep 0 None s"


section \<open>Partitioner\<close>

text \<open>
  \<open>hashKey\<close> (djb2). The accumulator is kept in 32 bits by \<open>hash | 0\<close>; the sum
  \<open>(hash << 5) + hash + charCode\<close> is exact in a double, so wrapping it afterwards is the
  same as adding in \<^typ>\<open>32 word\<close>. The final \<open>>>> 0\<close> reads the word as unsigned.
\<close>

fun hashLoop :: "32 word \<Rightarrow> string \<Rightarrow> 32 word" where
  "hashLoop hash [] = hash"
| "hashLoop hash (c # cs) = hashLoop ((push_bit 5 hash + hash) + of_nat (code c)) cs"

definition hashKey :: "string \<Rightarrow> nat" where
  "hashKey s = unat (hashLoop 5381 s)"

section \<open>Records of the tabular store\<close>

record participant =
  rowIndex :: nat
  nama :: string
  email :: string
  folderId :: string
  isShared :: string
  isFolderExists :: string
  lastLog :: string

text \<open>The first step of \<open>processParticipants\<close>: trim the name, trim and lowercase the
  email, and drop every record where either is then empty.\<close>

definition normalizeOne :: "participant \<Rightarrow> participant" where
  "normalizeOne p = p\<lparr>nama := trim (nama p), email := toLowerCase (trim (email p))\<rparr>"

definition normalize :: "participant list \<Rightarrow> participant list" where
  "normalize ps = filter (\<lambda>p. truthy (nama p) \<and> truthy (email p)) (map normalizeOne ps)"

text \<open>The tri-state gate on \<open>isShared\<close>.\<close>

definition notYetProcessed :: "participant \<Rightarrow> bool" where
  "notYetProcessed p =
     (let isSharedValue = toLowerCase (isShared p)
      in isSharedValue \<noteq> ''true'' \<and> isSharedValue \<noteq> ''false'')"

definition eligible :: "participant list \<Rightarrow> participant list" where
  "eligible ps = filter notYetProcessed (normalize ps)"

text \<open>Sharding. \<open>shardTotal\<close> and \<open>shardIndex\<close> come from the environment as numbers; they
  are integers here. The filter runs only when \<open>shardTotal > 0\<close>.\<close>

definition shardKey :: "participant \<Rightarrow> string" where
  "shardKey p = (if truthy (folderId p) then folderId p else toLowerCase (nama p))"

definition owningSlot :: "string \<Rightarrow> int \<Rightarrow> int" where
  "owningSlot k n = int (hashKey k) mod n"

definition applySharding :: "int \<Rightarrow> int \<Rightarrow> participant list \<Rightarrow> participant list" where
  "applySharding shardTotal shardIndex ps =
     (if shardTotal > 0
      then filter (\<lambda>p. owningSlot (shardKey p) shardTotal = shardIndex) ps
      else ps)"

section \<open>Remote errors\<close>

text \<open>
  An error thrown by a remote call: the HTTP status (\<open>error.response.status || error.code\<close>),
  the reasons of its error list, its message, and the two tags \<open>__op\<close> and \<open>__ctx\<close> that
  \<open>wrapError\<close> sets. The context of both tagged operations is \<open>{fileId, email, role}\<close>.
\<close>

record apiError =
  errStatus :: "nat option"
  errReasons :: "string list"
  errMessage :: string
  errOp :: "string option"
  errCtx :: "(string \<times> string \<times> string) option"

definition firstReason :: "apiError \<Rightarrow> string" where
  "firstReason e = (case errReasons e of [] \<Rightarrow> [] | r # _ \<Rightarrow> r)"

definition isRetryableRateLimit :: "apiError \<Rightarrow> bool" where
  "isRetryableRateLimit error =
     (if errStatus error = Some 429 then True
      else if errStatus error = Some 403 then
        (let r = firstReason error
         in includesStr r ''rateLimitExceeded'' \<or> includesStr r ''userRateLimitExceeded''
            \<or> includesStr r ''sharingRateLimitExceeded'')
      else False)"

definition wrapError :: "string \<Rightarrow> string \<times> string \<times> string \<Rightarrow> apiError \<Rightarrow> apiError" where
  "wrapError opName c error = error\<lparr>errOp := Some opName, errCtx := Some c\<rparr>"

definition statusText :: "nat option \<Rightarrow> string \<Rightarrow> string" where
  "statusText st dflt = (case st of None \<Rightarrow> dflt | Some n \<Rightarrow> showNat n)"

definition extractReasons :: "apiError \<Rightarrow> string list" where
  "extractReasons error = filter truthy (errReasons error)"

definition formatErrorSummary :: "apiError \<Rightarrow> string" where
  "formatErrorSummary error =
     (let reasons = extractReasons error;
          reasonStr = (if reasons \<noteq> [] then joinWith ''|'' reasons else ''unknown'')
      in ''[HTTP '' @ statusText (errStatus error) ''n/a'' @ ''] '' @ reasonStr @ '' - ''
         @ errMessage error)"

section \<open>The worker's world\<close>

text \<open>
  Effects are explicit. The world holds the clock (\<open>Date.now()\<close>, in milliseconds; it
  never runs backwards), the
  worker's \<open>lastApiCallAt\<close>, the number of remote calls and of \<open>Math.random()\<close> draws made so
  far, and the trace of everything the worker did to the outside: sleeps, remote calls,
  cell writes and lines written to its log file. Console output is not modelled.
  The clock advances by the sleeps and by the time the remote calls take; the computation
  between them takes no time.
  The kind of a sleep only names the place of the \<open>sleep\<close> call.
\<close>

datatype sleepKind = ThrottleDelay | Backoff | SoftWait | Pace

datatype event =
    Sleep sleepKind int
  | FilesList string "string option"
  | PermissionsList string
  | PermissionsCreate string string string
  | ValuesUpdate string string
  | LogLine string string

record world =
  now :: int
  lastApiCallAt :: int
  calls :: nat
  draws :: nat
  trace :: "event list"

record driveFile =
  fileId :: string
  fileName :: string

record permission =
  emailAddress :: string
  permRole :: string

text \<open>
  The remote services answer by call number. A Drive call returns how long it took and
  either an error or its data; \<open>randomFloor i k\<close> is the value of \<open>Math.floor(Math.random() * k)\<close>
  at the \<open>i\<close>-th draw of \<open>Math.random()\<close>, as the program computes it in double arithmetic
  (an integer from 0 to \<open>k - 1\<close>); \<open>localTimestamp\<close> is the \<open>id-ID\<close> rendering of the clock and
  \<open>percentText\<close> the \<open>toFixed(1)\<close> rendering of the success rate, both left open.
\<close>

record env =
  randomFloor :: "nat \<Rightarrow> nat \<Rightarrow> nat"
  filesList :: "nat \<Rightarrow> string \<Rightarrow> string option \<Rightarrow> nat \<times> (apiError + driveFile list \<times> string option)"
  permissionsList :: "nat \<Rightarrow> string \<Rightarrow> nat \<times> (apiError + permission list)"
  permissionsCreate :: "nat \<Rightarrow> string \<Rightarrow> string \<Rightarrow> string \<Rightarrow> nat \<times> (apiError + unit)"
  localTimestamp :: "int \<Rightarrow> string"
  percentText :: "nat \<Rightarrow> nat \<Rightarrow> string"

text \<open>The Sheets service: call number, range and value give the time taken and whether
  the update succeeded.\<close>

type_synonym sheet = "nat \<Rightarrow> string \<Rightarrow> string \<Rightarrow> nat \<times> bool"

record config =
  sheetName :: string
  parentFolderId :: string
  dryRun :: bool
  throttleMs :: nat
  envMaxPerRun :: "nat option"
  configMaxPerRun :: nat
  debugEnabled :: bool
  shardTotal :: int
  shardIndex :: int
  folderMapping :: "(string \<rightharpoonup> string) option"

text \<open>\<open>Math.floor(Math.random() * k)\<close> at draw \<open>i\<close>.\<close>

definition floorRandom :: "env \<Rightarrow> nat \<Rightarrow> nat \<Rightarrow> nat" where
  "floorRandom e i k = randomFloor e i k"

definition emit :: "event \<Rightarrow> world \<Rightarrow> world" where
  "emit ev w = w\<lparr>trace := trace w @ [ev]\<rparr>"

definition sleep :: "sleepKind \<Rightarrow> int \<Rightarrow> world \<Rightarrow> world" where
  "sleep kind ms w = emit (Sleep kind ms) (w\<lparr>now := now w + ms\<rparr>)"

text \<open>A remote call that took \<open>lat\<close> milliseconds.\<close>

definition remote :: "event \<Rightarrow> nat \<Rightarrow> world \<Rightarrow> world" where
  "remote ev lat w = emit ev (w\<lparr>calls := calls w + 1, now := now w + int lat\<rparr>)"

definition writeLog :: "string \<Rightarrow> string \<Rightarrow> world \<Rightarrow> world" where
  "writeLog message level w = emit (LogLine (toUpperCase level) message) w"

definition dlog :: "config \<Rightarrow> string list \<Rightarrow> world \<Rightarrow> world" where
  "dlog cfg args w = (if debugEnabled cfg then writeLog (joinWith '' '' args) ''debug'' w else w)"

definition minDelay :: "config \<Rightarrow> int" where
  "minDelay cfg = (if throttleMs cfg = 0 then 2500 else int (throttleMs cfg))"

definition throttle :: "env \<Rightarrow> config \<Rightarrow> world \<Rightarrow> world" where
  "throttle e cfg w =
     (let elapsed = now w - lastApiCallAt w;
          w1 = (if elapsed < minDelay cfg
                then (let jitter = floorRandom e (draws w) 400
                      in sleep ThrottleDelay (minDelay cfg - elapsed + int jitter)
                           (w\<lparr>draws := draws w + 1\<rparr>))
                else w)
      in w1\<lparr>lastApiCallAt := now w1\<rparr>)"

section \<open>Permission check and grant\<close>

definition permissionMatches :: "string \<Rightarrow> string \<Rightarrow> permission \<Rightarrow> bool" where
  "permissionMatches mail role p =
     (truthy (emailAddress p) \<and> toLowerCase (emailAddress p) = toLowerCase mail
      \<and> permRole p = role)"

text \<open>The retry loop of \<open>hasPermission\<close>; \<open>Inl\<close> is the error its inner \<open>catch\<close> rethrows.\<close>

function hasPermissionLoop ::
  "env \<Rightarrow> config \<Rightarrow> string \<Rightarrow> string \<Rightarrow> string \<Rightarrow> nat \<Rightarrow> world \<Rightarrow> (apiError + bool) \<times> world" where
  "hasPermissionLoop e cfg fid mail role attempt w =
     (let w1 = throttle e cfg w;
          response = permissionsList e (calls w1) fid;
          w2 = remote (PermissionsList fid) (fst response) w1
      in case snd response of
           Inr permissions \<Rightarrow> (Inr (list_ex (permissionMatches mail role) permissions), w2)
         | Inl err \<Rightarrow>
             (let w3 = dlog cfg [''permissions.list error:'', formatErrorSummary err] w2
              in if isRetryableRateLimit err \<and> attempt + 1 < 5
                 then hasPermissionLoop e cfg fid mail role (attempt + 1)
                        (sleep Backoff
                           (min 60000 (2 ^ (attempt + 1) * 1000) + int (floorRandom e (draws w3) 500))
                           (w3\<lparr>draws := draws w3 + 1\<rparr>))
                 else (Inl (wrapError ''drive.permissions.list'' (fid, mail, role) err), w3)))"
  by pat_completeness auto
termination
  by (relation "measure (\<lambda>(e, cfg, fid, mail, role, attempt, w). 5 - attempt)") auto

definition hasPermission ::
  "env \<Rightarrow> config \<Rightarrow> string \<Rightarrow> string \<Rightarrow> string \<Rightarrow> world \<Rightarrow> bool \<times> world" where
  "hasPermission e cfg fid mail role w =
     (case hasPermissionLoop e cfg fid mail role 0 w of
        (Inr b, w') \<Rightarrow> (b, w')
      | (Inl error, w') \<Rightarrow> (False, w'))"

datatype grantResult = DryRunStatus | Created

function grantLoop ::
  "env \<Rightarrow> config \<Rightarrow> string \<Rightarrow> string \<Rightarrow> nat \<Rightarrow> world \<Rightarrow> (apiError + grantResult) \<times> world" where
  "grantLoop e cfg fid mail attempt w =
     (let w1 = throttle e cfg w;
          response = permissionsCreate e (calls w1) fid ''reader'' mail;
          w2 = remote (PermissionsCreate fid ''reader'' mail) (fst response) w1
      in case snd response of
           Inr u \<Rightarrow> (Inr Created, w2)
         | Inl error \<Rightarrow>
             (let w3 = dlog cfg [''permissions.create error:'', formatErrorSummary error] w2
              in if isRetryableRateLimit error \<and> attempt + 1 < 6
                 then grantLoop e cfg fid mail (attempt + 1)
                        (sleep Backoff
                           (min 60000 (2 ^ (attempt + 1) * 1000) + int (floorRandom e (draws w3) 500))
                           (w3\<lparr>draws := draws w3 + 1\<rparr>))
                 else (Inl (wrapError ''drive.permissions.create'' (fid, mail, ''reader'') error),
                       w3)))"
  by pat_completeness auto
termination
  by (relation "measure (\<lambda>(e, cfg, fid, mail, attempt, w). 6 - attempt)") auto

definition grantPermission ::
  "env \<Rightarrow> config \<Rightarrow> string \<Rightarrow> string \<Rightarrow> world \<Rightarrow> (apiError + grantResult) \<times> world" where
  "grantPermission e cfg fid mail w =
     (if dryRun cfg then (Inr DryRunStatus, w) else grantLoop e cfg fid mail 0 w)"

text \<open>What a run added to the trace, and the parts of it the properties speak about.\<close>

definition since :: "world \<Rightarrow> world \<Rightarrow> event list" where
  "since w w' = drop (length (trace w)) (trace w')"

fun isCreate :: "event \<Rightarrow> bool" where
  "isCreate (PermissionsCreate f r m) = True"
| "isCreate ev = False"





declare showNat.simps [simp del] showDigits.simps [simp del] searchFrom.simps [simp del]
  hasPermissionLoop.simps [simp del] grantLoop.simps [simp del]

section \<open>Resource resolver\<close>

definition dq :: string where
  "dq = [CHR 0x22]"

definition sq :: string where
  "sq = [CHR 0x27]"

definition backslash :: string where
  "backslash = [CHR 0x5C]"

text \<open>\<open>s.replace(/\s+/g, ' ')\<close>.\<close>

definition collapseSpaces :: "string \<Rightarrow> string" where
  "collapseSpaces s = replaceAll (Plus (Cls isSpace)) '' '' s"

text \<open>\<open>/\b(w1|w2|...)\b/gi\<close>.\<close>

definition wholeWords :: "string list \<Rightarrow> rx" where
  "wholeWords ws = seqs [WordB, Grp 1 (alts (map litCI ws)), WordB]"

definition titles7 :: rx where
  "titles7 = wholeWords [''muhammad'', ''moh'', ''drs'', ''dr'', ''prof'', ''hj'', ''h'']"

definition titles5 :: rx where
  "titles5 = wholeWords [''muhammad'', ''moh'', ''drs'', ''dr'', ''prof'']"

text \<open>\<open>/[\.,-]/g\<close>.\<close>

definition specialChars :: rx where
  "specialChars = Cls (\<lambda>c. c = CHR ''.'' \<or> c = CHR '','' \<or> c = CHR ''-'')"

text \<open>\<open>Set.prototype.add\<close> on a set kept in insertion order.\<close>

definition setAdd :: "string list \<Rightarrow> string \<Rightarrow> string list" where
  "setAdd xs x = (if x \<in> set xs then xs else xs @ [x])"

definition createSearchVariations :: "string \<Rightarrow> string list" where
  "createSearchVariations name =
     (let v0 = foldl setAdd [] [name, toLowerCase name, toUpperCase name];
          normalized = trim (collapseSpaces name);
          v1 = foldl setAdd v0 [normalized, toLowerCase normalized];
          withoutPrefixes = trim (collapseSpaces (replaceAll titles7 [] name));
          v2 = (if truthy withoutPrefixes \<and> withoutPrefixes \<noteq> name
                then foldl setAdd v1 [withoutPrefixes, toLowerCase withoutPrefixes] else v1);
          withoutSpecialChars = trim (collapseSpaces (replaceAll specialChars '' '' name));
          v3 = (if truthy withoutSpecialChars \<and> withoutSpecialChars \<noteq> name
                then foldl setAdd v2 [withoutSpecialChars, toLowerCase withoutSpecialChars] else v2)
      in filter (\<lambda>v. length v > 0) v3)"

text \<open>\<open>mapping[key]\<close> read for its truthiness: a key that is absent and a key mapped to the
  empty string are both a miss. Only the mapping's own keys are modelled.\<close>

definition lookupTruthy :: "(string \<rightharpoonup> string) \<Rightarrow> string \<Rightarrow> string option" where
  "lookupTruthy m k = (case m k of None \<Rightarrow> None | Some v \<Rightarrow> if truthy v then Some v else None)"

definition orElse :: "'a option \<Rightarrow> 'a option \<Rightarrow> 'a option" where
  "orElse a b = (case a of Some v \<Rightarrow> Some v | None \<Rightarrow> b)"

fun firstMapped :: "(string \<rightharpoonup> string) \<Rightarrow> string list \<Rightarrow> string option" where
  "firstMapped m [] = None"
| "firstMapped m (variation # vs) =
     (case orElse (lookupTruthy m variation) (lookupTruthy m (toLowerCase variation)) of
        Some v \<Rightarrow> Some v
      | None \<Rightarrow> firstMapped m vs)"

definition mappingLookup :: "(string \<rightharpoonup> string) \<Rightarrow> string \<Rightarrow> string option" where
  "mappingLookup m targetName =
     orElse (lookupTruthy m targetName)
       (orElse (lookupTruthy m (toLowerCase targetName))
          (firstMapped m (createSearchVariations targetName)))"

subsection \<open>Global search by name\<close>

definition searchVariations :: "string \<Rightarrow> string list" where
  "searchVariations targetName =
     filter (\<lambda>v. length v > 0)
       [targetName, toLowerCase targetName, toUpperCase targetName,
        trim (collapseSpaces targetName), trim (replaceAll titles5 [] targetName)]"

definition folderMime :: string where
  "folderMime = ''mimeType='' @ sq @ ''application/vnd.google-apps.folder'' @ sq"

definition globalQuery :: "string \<Rightarrow> string" where
  "globalQuery searchTerm =
     folderMime @ '' and name contains '' @ sq @ replaceAll (lit sq) (backslash @ sq) searchTerm
     @ sq @ '' and trashed=false''"

definition childrenQuery :: "string \<Rightarrow> string" where
  "childrenQuery parentId =
     sq @ parentId @ sq @ '' in parents and '' @ folderMime @ '' and trashed=false''"

text \<open>An exact match on the lowercased name first, then containment in either direction.\<close>

definition matchFiles :: "string \<Rightarrow> driveFile list \<Rightarrow> driveFile option" where
  "matchFiles targetLower files =
     orElse (find (\<lambda>f. toLowerCase (fileName f) = targetLower) files)
       (find (\<lambda>f. includesStr (toLowerCase (fileName f)) targetLower
                  \<or> includesStr targetLower (toLowerCase (fileName f))) files)"

text \<open>The attempts for one search term: \<open>Some\<close> is a match (the search returns it), \<open>None\<close>
  the \<open>break\<close> to the next term.\<close>

function globalAttempt ::
  "env \<Rightarrow> config \<Rightarrow> string \<Rightarrow> string \<Rightarrow> nat \<Rightarrow> world \<Rightarrow> string option \<times> world" where
  "globalAttempt e cfg query targetLower attempt w =
     (let w1 = throttle e cfg w;
          response = filesList e (calls w1) query None;
          w2 = remote (FilesList query None) (fst response) w1
      in case snd response of
           Inr page \<Rightarrow>
             (case matchFiles targetLower (fst page) of
                Some f \<Rightarrow> (Some (fileId f), w2)
              | None \<Rightarrow> (None, w2))
         | Inl err \<Rightarrow>
             (let w3 = dlog cfg [''files.list(global) error:'', formatErrorSummary err] w2
              in if isRetryableRateLimit err \<and> attempt + 1 < 3
                 then globalAttempt e cfg query targetLower (attempt + 1)
                        (sleep Backoff
                           (min 30000 (2 ^ (attempt + 1) * 1000) + int (floorRandom e (draws w3) 500))
                           (w3\<lparr>draws := draws w3 + 1\<rparr>))
                 else (None, w3)))"
  by pat_completeness auto
termination
  by (relation "measure (\<lambda>(e, cfg, query, targetLower, attempt, w). 3 - attempt)") auto

fun globalSearch ::
  "env \<Rightarrow> config \<Rightarrow> string \<Rightarrow> string list \<Rightarrow> world \<Rightarrow> string option \<times> world" where
  "globalSearch e cfg targetLower [] w = (None, w)"
| "globalSearch e cfg targetLower (searchTerm # terms) w =
     (case globalAttempt e cfg (globalQuery searchTerm) targetLower 0 w of
        (Some found, w') \<Rightarrow> (Some found, w')
      | (None, w') \<Rightarrow> globalSearch e cfg targetLower terms w')"

subsection \<open>Breadth-first search under a parent folder\<close>

text \<open>
  The search runs in a race against a 30-second timer. The model follows the search up
  to the deadline: a loop that finds the clock at or past the deadline stops with
  \<open>None\<close>, which stands for a search still running when the timer fires. What the abandoned
  search does after that is not modelled.
\<close>

text \<open>\<open>listSubfolders\<close>: all pages of the children of a folder; \<open>Inl\<close> is the error a page
  request throws.\<close>

function listSubfolders ::
  "env \<Rightarrow> config \<Rightarrow> int \<Rightarrow> string \<Rightarrow> string option \<Rightarrow> driveFile list \<Rightarrow> world
   \<Rightarrow> (apiError + driveFile list) option \<times> world" where
  "listSubfolders e cfg deadline parentId pageToken all w =
     (if deadline \<le> now w then (None, w)
      else
       (let w1 = throttle e cfg w;
            response = filesList e (calls w1) (childrenQuery parentId) pageToken;
            w2 = remote (FilesList (childrenQuery parentId) pageToken) (fst response) w1
        in case snd response of
             Inl err \<Rightarrow> (Some (Inl err), w2)
           | Inr page \<Rightarrow>
               (case snd page of
                  None \<Rightarrow> (Some (Inr (all @ fst page)), w2)
                | Some nextPageToken \<Rightarrow>
                    if truthy nextPageToken
                    then listSubfolders e cfg deadline parentId (Some nextPageToken)
                           (all @ fst page) w2
                    else (Some (Inr (all @ fst page)), w2))))"
  by pat_completeness auto

text \<open>The measure of the page loop: the time left to the deadline, then whether the
  next \<open>throttle\<close> will pass without sleeping. Every page request lowers it, since
  \<open>throttle\<close> keeps two calls at least \<open>minDelay\<close> apart.\<close>

definition pressed :: "config \<Rightarrow> world \<Rightarrow> nat" where
  "pressed cfg w = (if now w - lastApiCallAt w < minDelay cfg then 0 else 1)"

definition timeLeft :: "config \<Rightarrow> int \<Rightarrow> world \<Rightarrow> nat \<times> nat" where
  "timeLeft cfg deadline w = (nat (deadline - now w), pressed cfg w)"


lemma throttle_remote_progress:
  assumes "now w < deadline"
  shows "(timeLeft cfg deadline (remote ev lat (throttle e cfg w)), timeLeft cfg deadline w)
           \<in> less_than <*lex*> less_than"
  using assms
  by (auto simp: timeLeft_def pressed_def throttle_def remote_def emit_def sleep_def Let_def minDelay_def)

termination listSubfolders
proof (relation "inv_image (less_than <*lex*> less_than)
           (\<lambda>(e, cfg, deadline, parentId, pageToken, all, w). timeLeft cfg deadline w)", goal_cases)
  case 1
  show ?case by (intro wf_inv_image wf_lex_prod wf_less_than)
next
  case (2 e cfg deadline parentId pageToken all w w1 response w2 page nextPageToken)
  then have "now w < deadline" by simp
  from throttle_remote_progress [OF this] 2 show ?case by simp
qed


declare listSubfolders.simps [simp del]

lemma listSubfolders_progress:
  "listSubfolders e cfg deadline parentId pageToken all w = (Some r, w1)
   \<Longrightarrow> now w < deadline
       \<and> (timeLeft cfg deadline w1, timeLeft cfg deadline w) \<in> less_than <*lex*> less_than"
proof (induction e cfg deadline parentId pageToken all w rule: listSubfolders.induct)
  case (1 e cfg deadline parentId pageToken all w)
  have live: "now w < deadline"
    using "1.prems" by (subst (asm) listSubfolders.simps) (simp split: if_splits)
  define w2 where "w2 = remote (FilesList (childrenQuery parentId) pageToken)
      (fst (filesList e (calls (throttle e cfg w)) (childrenQuery parentId) pageToken)) (throttle e cfg w)"
  have p2: "(timeLeft cfg deadline w2, timeLeft cfg deadline w) \<in> less_than <*lex*> less_than"
    unfolding w2_def by (rule throttle_remote_progress [OF live])
  have "w1 = w2 \<or> (timeLeft cfg deadline w1, timeLeft cfg deadline w2) \<in> less_than <*lex*> less_than"
    using "1.prems" live "1.IH" [OF _ refl refl refl]
    by (subst (asm) listSubfolders.simps)
       (auto simp: Let_def w2_def split: sum.splits option.splits if_splits)
  then have "(timeLeft cfg deadline w1, timeLeft cfg deadline w) \<in> less_than <*lex*> less_than"
    using p2 by (auto simp: timeLeft_def)
  then show ?case using live by simp
qed

lemma sleep_keeps_progress:
  assumes "now w < deadline" and "0 \<le> ms"
    and "(timeLeft cfg deadline w1, timeLeft cfg deadline w) \<in> less_than <*lex*> less_than"
  shows "(timeLeft cfg deadline (sleep kind ms w1), timeLeft cfg deadline w)
           \<in> less_than <*lex*> less_than"
  using assms by (auto simp: timeLeft_def sleep_def emit_def pressed_def split: if_splits)

lemma dlog_keeps_time: "timeLeft cfg deadline (dlog cfg args w) = timeLeft cfg deadline w"
  by (simp add: timeLeft_def dlog_def writeLog_def emit_def pressed_def)

lemma bfs_decreases:
  assumes "(x, y) = listSubfolders e cfg deadline parentId pageToken all w" and "x = Some r"
  shows "(timeLeft cfg deadline y, timeLeft cfg deadline w) \<in> less_than <*lex*> less_than"
    and "(timeLeft cfg deadline (sleep kind 1000 y), timeLeft cfg deadline w)
           \<in> less_than <*lex*> less_than"
    and "(timeLeft cfg deadline (dlog cfg args y), timeLeft cfg deadline w)
           \<in> less_than <*lex*> less_than"
proof -
  have "listSubfolders e cfg deadline parentId pageToken all w = (Some r, y)"
    using assms by simp
  from listSubfolders_progress [OF this]
  show "(timeLeft cfg deadline y, timeLeft cfg deadline w) \<in> less_than <*lex*> less_than"
    and "(timeLeft cfg deadline (sleep kind 1000 y), timeLeft cfg deadline w)
           \<in> less_than <*lex*> less_than"
    and "(timeLeft cfg deadline (dlog cfg args y), timeLeft cfg deadline w)
           \<in> less_than <*lex*> less_than"
    by (simp_all add: sleep_keeps_progress dlog_keeps_time)
qed

function bfs ::
  "env \<Rightarrow> config \<Rightarrow> int \<Rightarrow> string \<Rightarrow> (string \<times> nat) list \<Rightarrow> world
   \<Rightarrow> string option option \<times> world" where
  "bfs e cfg deadline targetLower [] w = (Some None, w)"
| "bfs e cfg deadline targetLower (current # queue) w =
     (if snd current > 3 then bfs e cfg deadline targetLower queue w
      else
       (case listSubfolders e cfg deadline (fst current) None [] w of
          (None, w1) \<Rightarrow> (None, w1)
        | (Some (Inr children), w1) \<Rightarrow>
            (case find (\<lambda>f. toLowerCase (fileName f) = targetLower) children of
               Some hit \<Rightarrow> (Some (Some (fileId hit)), w1)
             | None \<Rightarrow>
                 bfs e cfg deadline targetLower
                   (if snd current < 3
                    then queue @ map (\<lambda>c. (fileId c, snd current + 1)) children
                    else queue) w1)
        | (Some (Inl err), w1) \<Rightarrow>
            (if isRetryableRateLimit err
             then bfs e cfg deadline targetLower (queue @ [current]) (sleep SoftWait 1000 w1)
             else bfs e cfg deadline targetLower queue
                    (dlog cfg [''files.list(children) error:'', formatErrorSummary err] w1))))"
  by pat_completeness auto
termination
  by (relation "inv_image ((less_than <*lex*> less_than) <*lex*> less_than)
         (\<lambda>(e, cfg, deadline, targetLower, queue, w). (timeLeft cfg deadline w, length queue))")
     (auto intro: wf_lex_prod dest: bfs_decreases)

declare bfs.simps [simp del] globalAttempt.simps [simp del]

subsection \<open>The resolver\<close>

definition findFolderByNameInternal ::
  "env \<Rightarrow> config \<Rightarrow> int \<Rightarrow> string \<Rightarrow> string \<Rightarrow> world \<Rightarrow> string option option \<times> world" where
  "findFolderByNameInternal e cfg deadline name parent w =
     (let targetName = name; targetLower = toLowerCase targetName
      in if \<not> truthy targetName then (Some None, w)
         else if \<not> truthy parent
         then (case globalSearch e cfg targetLower (searchVariations targetName) w of
                 (found, w') \<Rightarrow> (Some found, w'))
         else bfs e cfg deadline targetLower [(parent, 0)] w)"

definition timeoutError :: "string \<Rightarrow> apiError" where
  "timeoutError name =
     \<lparr>errStatus = None, errReasons = [],
      errMessage = ''Folder search took too long (30s) for '' @ dq @ name @ dq,
      errOp = None, errCtx = None\<rparr>"

text \<open>\<open>Promise.race\<close> of the search and the timer: the search wins when it has finished,
  and finished before the deadline; otherwise the race rejects with the timer's error.\<close>

definition raceWithTimer ::
  "int \<Rightarrow> string \<Rightarrow> string option option \<times> world \<Rightarrow> (apiError + string option) \<times> world" where
  "raceWithTimer deadline name run =
     (case fst run of
        Some result \<Rightarrow>
          if now (snd run) < deadline then (Inr result, snd run)
          else (Inl (timeoutError name), snd run)
      | None \<Rightarrow> (Inl (timeoutError name), snd run))"

definition findFolderByNameFallback ::
  "env \<Rightarrow> config \<Rightarrow> string \<Rightarrow> string \<Rightarrow> world \<Rightarrow> (apiError + string option) \<times> world" where
  "findFolderByNameFallback e cfg name parent w =
     (let startTime = now w;
          timeoutMs = 30000;
          raced = raceWithTimer (startTime + timeoutMs) name
                    (findFolderByNameInternal e cfg (startTime + timeoutMs) name parent w)
      in case fst raced of
           Inr result \<Rightarrow> (Inr result, snd raced)
         | Inl error \<Rightarrow>
             (Inr None,
              dlog cfg [''Folder search timeout: '' @ name @ '' - '' @ errMessage error @ '' (''
                        @ showInt (now (snd raced) - startTime) @ ''ms)''] (snd raced)))"

definition findFolderByName ::
  "env \<Rightarrow> config \<Rightarrow> string \<Rightarrow> string \<Rightarrow> world \<Rightarrow> (apiError + string option) \<times> world" where
  "findFolderByName e cfg name parent w =
     (let startTime = now w; targetName = name
      in if \<not> truthy targetName then (Inr None, w)
         else
          (case folderMapping cfg of
             Some m \<Rightarrow>
               (case mappingLookup m targetName of
                  Some found \<Rightarrow>
                    (Inr (Some found),
                     writeLog (''Found folder (mapped): '' @ dq @ targetName @ dq @ '' (''
                               @ showInt (now w - startTime) @ ''ms)'') ''info'' w)
                | None \<Rightarrow>
                    findFolderByNameFallback e cfg name parent
                      (writeLog (''Folder not found in mapping: '' @ dq @ targetName @ dq)
                         ''info'' w))
           | None \<Rightarrow> findFolderByNameFallback e cfg name parent w))"

section \<open>External state I/O\<close>

record columns =
  nameCol :: int
  emailCol :: int
  folderIdCol :: int
  isSharedCol :: int
  isFolderExistsCol :: int
  lastLogCol :: int

text \<open>\<open>toCol\<close>: a column index as its A1 letters.\<close>

function toColGo :: "nat \<Rightarrow> string \<Rightarrow> string" where
  "toColGo n s =
     (if n > 0 then toColGo ((n - 1) div 26) (char_of (65 + (n - 1) mod 26) # s) else s)"
  by pat_completeness auto
termination
  by (relation "measure fst") auto

declare toColGo.simps [simp del]

definition toCol :: "nat \<Rightarrow> string" where
  "toCol index = toColGo (index + 1) []"

definition cellRange :: "config \<Rightarrow> string \<Rightarrow> nat \<Rightarrow> string" where
  "cellRange cfg col row = sheetName cfg @ ''!'' @ col @ showNat row"

text \<open>\<open>updateCell\<close>: whether the update succeeds or throws, the call returns normally; the
  \<open>catch\<close> only prints a warning.\<close>

definition updateCell :: "sheet \<Rightarrow> config \<Rightarrow> nat \<Rightarrow> string \<Rightarrow> string \<Rightarrow> world \<Rightarrow> world" where
  "updateCell sh cfg row col v w =
     (let range = cellRange cfg col row;
          response = sh (calls w) range v;
          w1 = remote (ValuesUpdate range v) (fst response) w
      in if snd response then w1 else w1)"

definition updateCellByIndex ::
  "sheet \<Rightarrow> config \<Rightarrow> int \<Rightarrow> nat \<Rightarrow> string \<Rightarrow> string \<Rightarrow> world \<Rightarrow> world" where
  "updateCellByIndex sh cfg colIndex row v label w =
     (if colIndex \<ge> 0 then updateCell sh cfg row (toCol (nat colIndex)) v w
      else writeLog (''Skip update: missing column '' @ sq @ label @ sq) ''error'' w)"

section \<open>Batch processor\<close>

definition emailRegex :: rx where
  "emailRegex =
     seqs [Bol,
           Plus (Cls (\<lambda>c. isAlpha c \<or> isDigit c \<or> c \<in> set ''._%+-'')),
           lit ''@'',
           Plus (Cls (\<lambda>c. isAlpha c \<or> isDigit c \<or> c \<in> set ''.-'')),
           lit ''.'',
           Cls isAlpha, Cls isAlpha, Star (Cls isAlpha),
           Eol]"

definition isValidEmail :: "string \<Rightarrow> bool" where
  "isValidEmail mail = rxTest emailRegex mail"

definition isGmail :: "string \<Rightarrow> bool" where
  "isGmail mail = endsWith (toLowerCase mail) ''@gmail.com''"

text \<open>Prioritisation and the batch limit.\<close>

definition prioritize :: "participant list \<Rightarrow> participant list" where
  "prioritize normalized =
     (let withFolderId = filter (\<lambda>p. truthy (folderId p)) normalized;
          needsSearch = filter (\<lambda>p. \<not> truthy (folderId p)
                                  \<and> toLowerCase (isFolderExists p) \<noteq> ''false'') normalized;
          problematic = filter (\<lambda>p. \<not> truthy (folderId p)
                                  \<and> toLowerCase (isFolderExists p) = ''false'') normalized
      in withFolderId @ needsSearch @ problematic)"

definition maxPerRun :: "config \<Rightarrow> nat" where
  "maxPerRun cfg =
     (case envMaxPerRun cfg of
        Some envMax \<Rightarrow> if envMax > 0 then envMax
                       else (if configMaxPerRun cfg = 0 then 300 else configMaxPerRun cfg)
      | None \<Rightarrow> (if configMaxPerRun cfg = 0 then 300 else configMaxPerRun cfg))"

definition workingParticipants :: "config \<Rightarrow> participant list \<Rightarrow> participant list" where
  "workingParticipants cfg participants =
     take (maxPerRun cfg)
       (prioritize (applySharding (shardTotal cfg) (shardIndex cfg) (eligible participants)))"

datatype outcome =
    SkippedInvalidEmail | SkippedNotGmail | SkippedDuplicate | SkippedAlreadyShared
  | FolderNotFound | SkippedHasAccess | Granted | DryRun | Failed apiError

text \<open>The arrow U+2192 of the last-log message lies outside the range of the model's
  characters; it stands here as the three bytes of its UTF-8 form.\<close>

definition rightArrow :: string where
  "rightArrow = [CHR 0xE2, CHR 0x86, CHR 0x92]"

definition stamped :: "env \<Rightarrow> world \<Rightarrow> string \<Rightarrow> string" where
  "stamped e w message = ''['' @ localTimestamp e (now w) @ ''] '' @ message"

definition friendlyMessage :: "string \<Rightarrow> apiError \<Rightarrow> string" where
  "friendlyMessage mail error =
     (let reasons = extractReasons error
      in if errStatus error = Some 403 then
           (if ''cannotInviteNonGoogleUser'' \<in> set reasons
            then ''Email '' @ mail @ '' tidak memiliki Google Account aktif atau tidak dapat diundang''
            else if ''sharingRateLimitExceeded'' \<in> set reasons
            then ''Rate limit tercapai untuk sharing, coba lagi nanti''
            else if ''permissionDenied'' \<in> set reasons
            then ''Tidak ada izin untuk membagikan folder ini''
            else ''Akses ditolak: '' @ errMessage error)
         else if errStatus error = Some 404 then ''Folder tidak ditemukan atau telah dihapus''
         else if errStatus error = Some 429 then ''Terlalu banyak permintaan, coba lagi nanti''
         else (if truthy (errMessage error) then errMessage error else ''Error tidak diketahui''))"

text \<open>The \<open>catch\<close> block of the per-record \<open>try\<close>.\<close>

definition recordError ::
  "env \<Rightarrow> sheet \<Rightarrow> config \<Rightarrow> columns \<Rightarrow> participant \<Rightarrow> int \<Rightarrow> int \<Rightarrow> apiError \<Rightarrow> world \<Rightarrow> world" where
  "recordError e sh cfg cols p participantStartTime folderSearchTime error w =
     (let totalTime = now w - participantStartTime;
          friendly = friendlyMessage (email p) error;
          shortLogLine = stamped e w (''ERROR: '' @ friendly @ '' ('' @ showInt totalTime @ ''ms)'');
          w1 = updateCellByIndex sh cfg (isSharedCol cols) (rowIndex p) ''FALSE'' ''isShared'' w;
          w2 = updateCellByIndex sh cfg (lastLogCol cols) (rowIndex p) shortLogLine ''LastLog'' w1
      in writeLog (''Row '' @ showNat (rowIndex p) @ '' ERROR: '' @ friendly @ '' - Time: ''
                   @ showInt totalTime @ ''ms''
                   @ (if folderSearchTime > 0
                      then '' (folder: '' @ showInt folderSearchTime @ ''ms)'' else [])
                   @ '' | Technical: HTTP '' @ statusText (errStatus error) ''null'' @ '' ''
                   @ joinWith '','' (extractReasons error) @ '' - '' @ errMessage error)
           ''error'' w2)"

text \<open>Resolution: the pre-resolved identifier if present, else the resolver. The third
  component is \<open>folderSearchTime\<close>.\<close>

definition resolveFolder ::
  "env \<Rightarrow> config \<Rightarrow> participant \<Rightarrow> world \<Rightarrow> (apiError + string option) \<times> world \<times> int" where
  "resolveFolder e cfg p w =
     (if truthy (folderId p) then (Inr (Some (folderId p)), w, 0)
      else (let found = findFolderByName e cfg (nama p) (parentFolderId cfg) w
            in (fst found, snd found, now (snd found) - now w)))"

text \<open>The steps after a folder has been found: mark it, check the permission, grant.\<close>

definition shareFolder ::
  "env \<Rightarrow> sheet \<Rightarrow> config \<Rightarrow> columns \<Rightarrow> participant \<Rightarrow> int \<Rightarrow> int \<Rightarrow> string \<Rightarrow> world
   \<Rightarrow> outcome \<times> world" where
  "shareFolder e sh cfg cols p participantStartTime folderSearchTime found w =
     (let row = rowIndex p; mail = email p; role = ''reader'';
          w1 = updateCellByIndex sh cfg (isFolderExistsCol cols) row ''TRUE'' ''isFolderExists'' w;
          w2 = (if \<not> truthy (folderId p)
                then updateCellByIndex sh cfg (folderIdCol cols) row found ''FolderId'' w1 else w1);
          checked = hasPermission e cfg found mail role w2;
          w3 = snd checked;
          permissionCheckTime = now w3 - now w2
      in if fst checked then
           (let totalTime = now w3 - participantStartTime;
                w4 = updateCellByIndex sh cfg (isSharedCol cols) row ''TRUE'' ''isShared'' w3;
                w5 = updateCellByIndex sh cfg (lastLogCol cols) row
                       (stamped e w4 (''SKIP: Already has '' @ role @ '' access (''
                                      @ showInt totalTime @ ''ms)'')) ''LastLog'' w4;
                w6 = writeLog (''Row '' @ showNat row @ '' SKIP already has '' @ role
                               @ '' - Time: '' @ showInt totalTime @ ''ms (folder: ''
                               @ showInt folderSearchTime @ ''ms, permission: ''
                               @ showInt permissionCheckTime @ ''ms)'') ''info'' w5
            in (SkippedHasAccess,
                updateCellByIndex sh cfg (isSharedCol cols) row ''TRUE'' ''isShared'' w6))
         else
           (let granted = grantPermission e cfg found mail w3;
                w4 = snd granted;
                grantPermissionTime = now w4 - now w3
            in case fst granted of
                 Inl error \<Rightarrow>
                   (Failed error,
                    recordError e sh cfg cols p participantStartTime folderSearchTime error w4)
               | Inr res \<Rightarrow>
                   (let totalTime = now w4 - participantStartTime;
                        w5 = updateCellByIndex sh cfg (isSharedCol cols) row ''TRUE'' ''isShared'' w4;
                        statusWord = (if dryRun cfg then ''DRY_RUN'' else ''GRANTED'');
                        w6 = updateCellByIndex sh cfg (lastLogCol cols) row
                               (stamped e w5 (statusWord @ '' '' @ role @ '' '' @ rightArrow @ '' ''
                                              @ mail @ '' ('' @ showInt totalTime @ ''ms)''))
                               ''LastLog'' w5;
                        w7 = writeLog (''Row '' @ showNat row @ '' '' @ statusWord @ '' '' @ role
                                       @ '' -> '' @ mail @ '' - Time: '' @ showInt totalTime
                                       @ ''ms (folder: '' @ showInt folderSearchTime
                                       @ ''ms, permission: '' @ showInt permissionCheckTime
                                       @ ''ms, grant: '' @ showInt grantPermissionTime @ ''ms)'')
                               ''info'' w6;
                        jitter = floorRandom e (draws w7) 200
                    in (if dryRun cfg then DryRun else Granted,
                        sleep Pace (minDelay cfg div 2 + int jitter) (w7\<lparr>draws := draws w7 + 1\<rparr>)))))"

text \<open>One iteration of the loop over the working list: the record, the set of keys seen
  so far, and the world.\<close>

definition processOne ::
  "env \<Rightarrow> sheet \<Rightarrow> config \<Rightarrow> columns \<Rightarrow> string list \<Rightarrow> participant \<Rightarrow> world
   \<Rightarrow> outcome \<times> string list \<times> world" where
  "processOne e sh cfg cols seen p w =
     (let row = rowIndex p; mail = email p;
          participantStartTime = now w
      in if \<not> isValidEmail mail \<or> \<not> isGmail mail then
           (let totalTime = now w - participantStartTime;
                reason = (if \<not> isValidEmail mail then ''INVALID EMAIL FORMAT''
                          else ''NOT GMAIL ACCOUNT'');
                w1 = updateCellByIndex sh cfg (isSharedCol cols) row ''FALSE'' ''isShared'' w;
                w2 = updateCellByIndex sh cfg (lastLogCol cols) row
                       (stamped e w1 (''SKIP: '' @ reason @ '' '' @ sq @ mail @ sq @ '' (''
                                      @ showInt totalTime @ ''ms)'')) ''LastLog'' w1
            in (if \<not> isValidEmail mail then SkippedInvalidEmail else SkippedNotGmail, seen,
                writeLog (''Row '' @ showNat row @ '' SKIP '' @ reason @ '': '' @ mail
                          @ '' - Time: '' @ showInt totalTime @ ''ms'') ''info'' w2))
         else
           (let key = toLowerCase (nama p) @ ''|'' @ mail
            in if key \<in> set seen then
                 (let totalTime = now w - participantStartTime;
                      w1 = updateCellByIndex sh cfg (lastLogCol cols) row
                             (stamped e w (''SKIP: Duplicate entry ('' @ showInt totalTime @ ''ms)''))
                             ''LastLog'' w
                  in (SkippedDuplicate, seen,
                      writeLog (''Row '' @ showNat row @ '' SKIP duplicate: '' @ nama p @ ''|''
                                @ mail @ '' - Time: '' @ showInt totalTime @ ''ms'') ''info'' w1))
               else if truthy (isShared p) \<and> toLowerCase (isShared p) = ''true'' then
                 (let totalTime = now w - participantStartTime;
                      w1 = updateCellByIndex sh cfg (lastLogCol cols) row
                             (stamped e w (''SKIP: Already shared ('' @ showInt totalTime @ ''ms)''))
                             ''LastLog'' w
                  in (SkippedAlreadyShared, setAdd seen key,
                      writeLog (''Row '' @ showNat row @ '' SKIP already shared - Time: ''
                                @ showInt totalTime @ ''ms'') ''info'' w1))
               else
                 (case resolveFolder e cfg p w of
                    (Inl error, w1, folderSearchTime) \<Rightarrow>
                      (Failed error, setAdd seen key,
                       recordError e sh cfg cols p participantStartTime folderSearchTime error w1)
                  | (Inr found, w1, folderSearchTime) \<Rightarrow>
                      (if (case found of None \<Rightarrow> True | Some f \<Rightarrow> \<not> truthy f) then
                         (let totalTime = now w1 - participantStartTime;
                              w2 = updateCellByIndex sh cfg (isFolderExistsCol cols) row ''FALSE''
                                     ''isFolderExists'' w1;
                              w3 = updateCellByIndex sh cfg (lastLogCol cols) row
                                     (stamped e w2 (''FOLDER NOT FOUND: '' @ sq @ nama p @ sq @ '' (''
                                                    @ showInt totalTime @ ''ms)'')) ''LastLog'' w2
                          in (FolderNotFound, setAdd seen key,
                              writeLog (''Row '' @ showNat row @ '' ERROR folder not found for name=''
                                        @ sq @ nama p @ sq @ '' - Time: '' @ showInt totalTime
                                        @ ''ms (folder search: '' @ showInt folderSearchTime @ ''ms)'')
                                ''error'' w3))
                       else
                         (case shareFolder e sh cfg cols p participantStartTime folderSearchTime
                                 (case found of None \<Rightarrow> [] | Some f \<Rightarrow> f) w1 of
                            (result, w2) \<Rightarrow> (result, setAdd seen key, w2))))))"

record stats =
  statTotal :: nat
  statDone :: nat
  statSkipped :: nat
  statErrors :: nat

definition count :: "outcome \<Rightarrow> stats \<Rightarrow> stats" where
  "count result s =
     (let s1 = s\<lparr>statTotal := statTotal s + 1\<rparr>
      in case result of
           Granted \<Rightarrow> s1\<lparr>statDone := statDone s1 + 1\<rparr>
         | DryRun \<Rightarrow> s1\<lparr>statDone := statDone s1 + 1\<rparr>
         | FolderNotFound \<Rightarrow> s1\<lparr>statErrors := statErrors s1 + 1\<rparr>
         | Failed error \<Rightarrow> s1\<lparr>statErrors := statErrors s1 + 1\<rparr>
         | _ \<Rightarrow> s1\<lparr>statSkipped := statSkipped s1 + 1\<rparr>)"

fun processLoop ::
  "env \<Rightarrow> sheet \<Rightarrow> config \<Rightarrow> columns \<Rightarrow> participant list \<Rightarrow> string list \<Rightarrow> world
   \<Rightarrow> outcome list \<times> world" where
  "processLoop e sh cfg cols [] seen w = ([], w)"
| "processLoop e sh cfg cols (p # ps) seen w =
     (case processOne e sh cfg cols seen p w of
        (result, seen', w') \<Rightarrow>
          (case processLoop e sh cfg cols ps seen' w' of
             (results, w'') \<Rightarrow> (result # results, w'')))"

definition processParticipants ::
  "env \<Rightarrow> sheet \<Rightarrow> config \<Rightarrow> columns \<Rightarrow> participant list \<Rightarrow> world \<Rightarrow> outcome list \<times> world" where
  "processParticipants e sh cfg cols participants w =
     (let normalized = eligible participants;
          sharded = applySharding (shardTotal cfg) (shardIndex cfg) normalized;
          w1 = (if shardTotal cfg > 0
                then writeLog (''Sharding applied: '' @ showNat (length sharded) @ ''/''
                               @ showNat (length normalized) @ '' records for shard ''
                               @ showInt (shardIndex cfg) @ ''/'' @ showInt (shardTotal cfg - 1))
                       ''info'' w
                else w);
          working = workingParticipants cfg participants;
          w2 = writeLog (''Processing '' @ showNat (length working)
                         @ '' participants. parentFolderId='' @ parentFolderId cfg) ''info'' w1;
          looped = processLoop e sh cfg cols working [] w2;
          s = foldl (\<lambda>acc r. count r acc)
                \<lparr>statTotal = 0, statDone = 0, statSkipped = 0, statErrors = 0\<rparr> (fst looped)
      in (fst looped,
          writeLog (''Summary: total='' @ showNat (statTotal s) @ '' done='' @ showNat (statDone s)
                    @ '' skipped='' @ showNat (statSkipped s) @ '' errors=''
                    @ showNat (statErrors s) @ '' successRate=''
                    @ (if statTotal s > 0 then percentText e (statDone s) (statTotal s) else ''0'')
                    @ ''%'') ''info'' (snd looped)))"

section \<open>Example data\<close>

text \<open>A small sheet and small remote services, used to run the model on concrete input.\<close>

definition rowBudi :: participant where
  "rowBudi = \<lparr>rowIndex = 2, nama = '' Budi '', email = ''Budi@Gmail.com'', folderId = ''F1'',
     isShared = '''', isFolderExists = '''', lastLog = ''''\<rparr>"

definition rowDone :: participant where
  "rowDone = \<lparr>rowIndex = 3, nama = ''Ani'', email = ''ani@gmail.com'', folderId = ''F2'',
     isShared = ''TRUE'', isFolderExists = ''TRUE'', lastLog = ''''\<rparr>"

definition rowNoName :: participant where
  "rowNoName = \<lparr>rowIndex = 4, nama = ''   '', email = ''x@gmail.com'', folderId = '''',
     isShared = '''', isFolderExists = '''', lastLog = ''''\<rparr>"

definition rowBadMail :: participant where
  "rowBadMail = \<lparr>rowIndex = 5, nama = ''Cici'', email = ''cici-at-gmail'', folderId = '''',
     isShared = '''', isFolderExists = '''', lastLog = ''''\<rparr>"

definition cfg0 :: config where
  "cfg0 = \<lparr>sheetName = ''Sheet1'', parentFolderId = '''', dryRun = False, throttleMs = 2500,
     envMaxPerRun = None, configMaxPerRun = 300, debugEnabled = False, shardTotal = 0,
     shardIndex = 0, folderMapping = None\<rparr>"

definition cols0 :: columns where
  "cols0 = \<lparr>nameCol = 0, emailCol = 1, folderIdCol = 2, isSharedCol = 3, isFolderExistsCol = 4,
     lastLogCol = 5\<rparr>"

definition w0 :: world where
  "w0 = \<lparr>now = 1000000, lastApiCallAt = 0, calls = 0, draws = 0, trace = []\<rparr>"

definition rateLimited :: apiError where
  "rateLimited = \<lparr>errStatus = Some 429, errReasons = [''rateLimitExceeded''],
     errMessage = ''Rate Limit Exceeded'', errOp = None, errCtx = None\<rparr>"

definition notFound404 :: apiError where
  "notFound404 = \<lparr>errStatus = Some 404, errReasons = [''notFound''],
     errMessage = ''File not found'', errOp = None, errCtx = None\<rparr>"

text \<open>A Drive where every call succeeds and finds nothing, one where every call is rate
  limited, and one where every call is a 404.\<close>

definition quietDrive :: env where
  "quietDrive = \<lparr>randomFloor = (\<lambda>i k. 0),
     filesList = (\<lambda>k q t. (100, Inr ([], None))),
     permissionsList = (\<lambda>k f. (100, Inr [])),
     permissionsCreate = (\<lambda>k f r m. (100, Inr ())),
     localTimestamp = (\<lambda>t. ''01/01/2025, 00.00.00''),
     percentText = (\<lambda>d t. ''0.0'')\<rparr>"

definition busyDrive :: env where
  "busyDrive = quietDrive\<lparr>filesList := (\<lambda>k q t. (100, Inl rateLimited)),
     permissionsList := (\<lambda>k f. (100, Inl rateLimited)),
     permissionsCreate := (\<lambda>k f r m. (100, Inl rateLimited))\<rparr>"

definition brokenDrive :: env where
  "brokenDrive = quietDrive\<lparr>filesList := (\<lambda>k q t. (100, Inl notFound404)),
     permissionsList := (\<lambda>k f. (100, Inl notFound404)),
     permissionsCreate := (\<lambda>k f r m. (100, Inl notFound404))\<rparr>"

definition goodSheet :: sheet where
  "goodSheet = (\<lambda>k range v. (50, True))"

definition badSheet :: sheet where
  "badSheet = (\<lambda>k range v. (50, False))"

text \<open>
  The hash that \<open>hashKey\<close> is meant to compute, written apart from the loop: djb2 over the
  code units of the key, \<open>h \<mapsto> 33 * h + c\<close> from 5381, in unbounded arithmetic.
\<close>

definition djb2 :: "string \<Rightarrow> nat" where
  "djb2 s = foldl (\<lambda>h c. 33 * h + code c) 5381 s"

text \<open>More example data: a second eligible row, a row whose shard key is \<open>ab\<close>, a
  configuration with a batch limit of one record, and the third of three shards.\<close>

definition rowEka :: participant where
  "rowEka = \<lparr>rowIndex = 6, nama = ''Eka'', email = ''eka@gmail.com'', folderId = ''F6'',
     isShared = '''', isFolderExists = '''', lastLog = ''''\<rparr>"

definition rowAb :: participant where
  "rowAb = \<lparr>rowIndex = 7, nama = ''Abi'', email = ''abi@gmail.com'', folderId = ''ab'',
     isShared = '''', isFolderExists = '''', lastLog = ''''\<rparr>"

definition cappedCfg :: config where
  "cappedCfg = cfg0\<lparr>configMaxPerRun := 1\<rparr>"

definition shardCfg :: config where
  "shardCfg = cfg0\<lparr>shardTotal := 3, shardIndex := 2\<rparr>"

text \<open>A row that an earlier cycle marked as failed.\<close>

definition rowFailed :: participant where
  "rowFailed = \<lparr>rowIndex = 8, nama = ''Gita'', email = ''gita@gmail.com'', folderId = ''F8'',
     isShared = ''False'', isFolderExists = ''TRUE'', lastLog = ''''\<rparr>"


text \<open>How long \<open>throttle\<close> sleeps in a world.\<close>

definition throttleSleep :: "env \<Rightarrow> config \<Rightarrow> world \<Rightarrow> int" where
  "throttleSleep e cfg w = now (throttle e cfg w) - now w"



text \<open>The retryable errors in the words of the specification: HTTP 429, or HTTP 403 with
  a rate-limit reason (one of the three the program looks for, in the first reason).\<close>

definition rateLimitFailure :: "apiError \<Rightarrow> bool" where
  "rateLimitFailure err =
     (errStatus err = Some 429
      \<or> (errStatus err = Some 403
          \<and> (includesStr (firstReason err) ''rateLimitExceeded''
             \<or> includesStr (firstReason err) ''userRateLimitExceeded''
             \<or> includesStr (firstReason err) ''sharingRateLimitExceeded'')))"


text \<open>A row whose email is blank.\<close>

definition rowNoMail :: participant where
  "rowNoMail = \<lparr>rowIndex = 9, nama = ''Hadi'', email = '' '', folderId = ''F9'',
     isShared = '''', isFolderExists = '''', lastLog = ''''\<rparr>"


text \<open>A Drive where the permission list cannot be read (every list call is a 404) and
  everything else works.\<close>

definition listDownDrive :: env where
  "listDownDrive = quietDrive\<lparr>permissionsList := (\<lambda>k f. (100, Inl notFound404))\<rparr>"





text \<open>
  Runs. \<open>only P w w'\<close>: the world \<open>w'\<close> continues the trace of \<open>w\<close>, and every event added
  satisfies \<open>P\<close>; \<open>extends\<close> asks nothing of the events. An event is silent when it is
  neither a permission-create call nor a cell update.
\<close>

definition only :: "(event \<Rightarrow> bool) \<Rightarrow> world \<Rightarrow> world \<Rightarrow> bool" where
  "only P w w' = (\<exists>evs. trace w' = trace w @ evs \<and> list_all P evs)"

definition extends :: "world \<Rightarrow> world \<Rightarrow> bool" where
  "extends w w' = only (\<lambda>ev. True) w w'"

fun isUpdate :: "event \<Rightarrow> bool" where
  "isUpdate (ValuesUpdate r v) = True"
| "isUpdate ev = False"

fun isList :: "event \<Rightarrow> bool" where
  "isList (PermissionsList f) = True"
| "isList ev = False"

definition silent :: "event \<Rightarrow> bool" where
  "silent ev = (\<not> isCreate ev \<and> \<not> isUpdate ev)"

named_theorems quiet \<open>steps of a run, each with the events it may add\<close>

chapter \<open>Properties\<close>

section \<open>Properties of the partitioner\<close>

lemma hashKey_djb2_example: "hashKey ''ab'' = 5863208"
  by (simp add: hashKey_def code_def)

lemma hashLoop_djb2: "hashLoop (of_nat a) s = of_nat (foldl (\<lambda>h c. 33 * h + code c) a s)"
proof (induction s arbitrary: a)
  case Nil
  show ?case by simp
next
  case (Cons c cs)
  have "push_bit 5 (of_nat a :: 32 word) + of_nat a + of_nat (code c) = of_nat (33 * a + code c)"
    by (simp add: push_bit_eq_mult)
  then show ?case using Cons.IH [of "33 * a + code c"] by simp
qed

lemma hashKey_djb2: "hashKey s = djb2 s mod 2 ^ 32"
proof -
  have "hashLoop 5381 s = of_nat (djb2 s)"
    using hashLoop_djb2 [of 5381 s] by (simp add: djb2_def)
  then show ?thesis by (simp add: hashKey_def unat_of_nat)
qed

lemma prioritize_set: "set (prioritize ps) = set ps"
  by (auto simp: prioritize_def Let_def)

lemma prioritize_length: "length (prioritize ps) = length ps"
proof (induction ps)
  case Nil
  show ?case by (simp add: prioritize_def)
next
  case (Cons p ps)
  then show ?case by (auto simp: prioritize_def Let_def)
qed

lemma processLoop_length: "length (fst (processLoop e sh cfg cols ps seen w)) = length ps"
proof (induction ps arbitrary: seen w)
  case Nil
  show ?case by simp
next
  case (Cons p ps)
  obtain r seen' w' where one: "processOne e sh cfg cols seen p w = (r, seen', w')"
    by (cases "processOne e sh cfg cols seen p w") auto
  obtain rs w'' where rest: "processLoop e sh cfg cols ps seen' w' = (rs, w'')"
    by (cases "processLoop e sh cfg cols ps seen' w'") auto
  have "length rs = length ps"
    using Cons.IH [of seen' w'] rest by simp
  then show ?case by (simp add: one rest)
qed

lemma processParticipants_length:
  "length (fst (processParticipants e sh cfg cols ps w)) = length (workingParticipants cfg ps)"
  by (simp add: processParticipants_def Let_def processLoop_length)

text \<open>
  Claim C1, as amended. The slot of a key is \<open>hashKey k mod n\<close>, where \<open>hashKey k\<close> is the
  djb2 hash of the key's code units reduced modulo \<open>2^32\<close>: a function of the key alone. For
  \<open>n > 0\<close> it lies in \<open>[0, n)\<close>. With a positive shard total the working list of a cycle is
  drawn from the eligible records whose slot is the worker's index; with a shard total of 0
  (or below) no partition filter is applied: the working list is the eligible records in
  priority order, cut to the batch limit, the cycle yields one outcome for each of them,
  and when the eligible records do not exceed the batch limit they are all in the working
  list.
\<close>

theorem shard_assignment:
  "(0 < n \<longrightarrow> 0 \<le> owningSlot k n \<and> owningSlot k n < n)
   \<and> owningSlot k n = int (djb2 k mod 2 ^ 32) mod n
   \<and> (0 < shardTotal cfg \<longrightarrow>
        workingParticipants cfg ps
          = take (maxPerRun cfg)
              (prioritize (filter (\<lambda>p. owningSlot (shardKey p) (shardTotal cfg) = shardIndex cfg)
                 (eligible ps))))
   \<and> (shardTotal cfg \<le> 0 \<longrightarrow>
        workingParticipants cfg ps = take (maxPerRun cfg) (prioritize (eligible ps))
        \<and> length (fst (processParticipants e sh cfg cols ps w))
            = min (maxPerRun cfg) (length (eligible ps))
        \<and> (length (eligible ps) \<le> maxPerRun cfg \<longrightarrow>
             set (workingParticipants cfg ps) = set (eligible ps)
             \<and> length (workingParticipants cfg ps) = length (eligible ps)))"
proof (intro conjI impI)
  assume "0 < n"
  then show "0 \<le> owningSlot k n" "owningSlot k n < n"
    by (simp_all add: owningSlot_def)
next
  show "owningSlot k n = int (djb2 k mod 2 ^ 32) mod n"
    by (simp add: owningSlot_def hashKey_djb2)
next
  assume "0 < shardTotal cfg"
  then show "workingParticipants cfg ps
          = take (maxPerRun cfg)
              (prioritize (filter (\<lambda>p. owningSlot (shardKey p) (shardTotal cfg) = shardIndex cfg)
                 (eligible ps)))"
    by (simp add: workingParticipants_def applySharding_def)
next
  assume off: "shardTotal cfg \<le> 0"
  then show wp: "workingParticipants cfg ps = take (maxPerRun cfg) (prioritize (eligible ps))"
    by (simp add: workingParticipants_def applySharding_def)
  show "length (fst (processParticipants e sh cfg cols ps w))
            = min (maxPerRun cfg) (length (eligible ps))"
    by (simp add: processParticipants_length wp prioritize_length min.commute)
  assume "length (eligible ps) \<le> maxPerRun cfg"
  then show "set (workingParticipants cfg ps) = set (eligible ps)"
    "length (workingParticipants cfg ps) = length (eligible ps)"
    by (simp_all add: wp prioritize_length prioritize_set)
qed

theorem shard_assignment_witness:
  "owningSlot ''ab'' 3 = 2
   \<and> workingParticipants shardCfg [rowBudi, rowAb, rowEka] = [normalizeOne rowAb]
   \<and> workingParticipants cfg0 [rowBudi, rowAb, rowEka]
       = [normalizeOne rowBudi, normalizeOne rowAb, normalizeOne rowEka]
   \<and> length (fst (processParticipants quietDrive goodSheet cfg0 cols0 [rowBudi, rowAb, rowEka] w0)) = 3"
proof -
  have a: "(0::int) < 3" "0 < shardTotal shardCfg" "shardTotal cfg0 \<le> 0"
    "shardTotal shardCfg = 3" "shardIndex shardCfg = 2"
    by (simp_all add: shardCfg_def cfg0_def)
  have b: "int (djb2 ''ab'' mod 2 ^ 32) mod 3 = 2"
    by (simp add: djb2_def code_def)
  have e: "eligible [rowBudi, rowAb, rowEka]
      = [normalizeOne rowBudi, normalizeOne rowAb, normalizeOne rowEka]"
    by code_simp
  have k: "shardKey (normalizeOne rowBudi) = ''F1''" "shardKey (normalizeOne rowAb) = ''ab''"
    "shardKey (normalizeOne rowEka) = ''F6''"
    by code_simp+
  have s: "owningSlot ''F1'' 3 = 1" "owningSlot ''ab'' 3 = 2" "owningSlot ''F6'' 3 = 0"
    by (simp_all add: owningSlot_def hashKey_def code_def)
  have p: "prioritize [normalizeOne rowAb] = [normalizeOne rowAb]"
    "prioritize [normalizeOne rowBudi, normalizeOne rowAb, normalizeOne rowEka]
      = [normalizeOne rowBudi, normalizeOne rowAb, normalizeOne rowEka]"
    by code_simp+
  have m: "maxPerRun shardCfg = 300" "maxPerRun cfg0 = 300"
    by code_simp+
  have c: "take (maxPerRun shardCfg)
              (prioritize (filter (\<lambda>p. owningSlot (shardKey p) (shardTotal shardCfg) = shardIndex shardCfg)
                 (eligible [rowBudi, rowAb, rowEka]))) = [normalizeOne rowAb]"
    by (simp add: e k s a p m)
  have d: "take (maxPerRun cfg0) (prioritize (eligible [rowBudi, rowAb, rowEka]))
      = [normalizeOne rowBudi, normalizeOne rowAb, normalizeOne rowEka]"
    by (simp add: e p m)
  have l: "min (maxPerRun cfg0) (length (eligible [rowBudi, rowAb, rowEka])) = 3"
    by (simp add: e m)
  from shard_assignment [of 3 "''ab''" shardCfg "[rowBudi, rowAb, rowEka]"] a b c
  have A: "owningSlot ''ab'' 3 = 2
     \<and> workingParticipants shardCfg [rowBudi, rowAb, rowEka] = [normalizeOne rowAb]"
    by simp
  from shard_assignment [of 3 "''ab''" cfg0 "[rowBudi, rowAb, rowEka]" quietDrive goodSheet cols0 w0]
    a d l
  have B: "workingParticipants cfg0 [rowBudi, rowAb, rowEka]
       = [normalizeOne rowBudi, normalizeOne rowAb, normalizeOne rowEka]
     \<and> length (fst (processParticipants quietDrive goodSheet cfg0 cols0 [rowBudi, rowAb, rowEka] w0)) = 3"
    by simp
  show ?thesis using A B by simp
qed

text \<open>
  The claim as it stands fails at the batch limit: with a shard total of 0, a batch limit
  of one record and two eligible records, the cycle works on the first record only.
\<close>

theorem full_set_counterexample:
  "shardTotal cappedCfg = 0
   \<and> map rowIndex (eligible [rowBudi, rowEka]) = [2, 6]
   \<and> map rowIndex (workingParticipants cappedCfg [rowBudi, rowEka]) = [2]
   \<and> length (fst (processParticipants quietDrive goodSheet cappedCfg cols0 [rowBudi, rowEka] w0)) = 1"
proof -
  have a: "shardTotal cappedCfg = 0"
    by (simp add: cappedCfg_def cfg0_def)
  have b: "map rowIndex (eligible [rowBudi, rowEka]) = [2, 6]"
    by code_simp
  have c: "map rowIndex (workingParticipants cappedCfg [rowBudi, rowEka]) = [2]"
    by code_simp
  have "length (workingParticipants cappedCfg [rowBudi, rowEka]) = 1"
    using arg_cong [OF c, of length] by simp
  then show ?thesis using a b c by (simp add: processParticipants_length)
qed

section \<open>Properties of the eligibility gate\<close>

lemma eligible_filter:
  "eligible (filter (\<lambda>q. toLowerCase (isShared q) \<noteq> ''true'' \<and> toLowerCase (isShared q) \<noteq> ''false'') ps)
     = eligible ps"
  by (induction ps) (auto simp: eligible_def normalize_def normalizeOne_def notYetProcessed_def Let_def)

lemma workingParticipants_filter:
  "workingParticipants cfg
     (filter (\<lambda>q. toLowerCase (isShared q) \<noteq> ''true'' \<and> toLowerCase (isShared q) \<noteq> ''false'') ps)
   = workingParticipants cfg ps"
  by (simp add: workingParticipants_def eligible_filter)

lemma workingParticipants_subset: "set (workingParticipants cfg ps) \<subseteq> set (eligible ps)"
proof -
  have "set (workingParticipants cfg ps)
      \<subseteq> set (prioritize (applySharding (shardTotal cfg) (shardIndex cfg) (eligible ps)))"
    unfolding workingParticipants_def by (rule set_take_subset)
  also have "\<dots> \<subseteq> set (eligible ps)"
    by (auto simp: prioritize_set applySharding_def)
  finally show ?thesis .
qed

text \<open>
  Claim C2. The eligibility filter keeps, of the normalised records, exactly those whose
  lowercased \<open>isShared\<close> is neither \<open>true\<close> nor \<open>false\<close>. It runs before sharding, prioritisation
  and the batch limit, so no record of the working list has such a status, and a cycle
  over a sheet is the cycle over the sheet without the records whose status is \<open>true\<close> or
  \<open>false\<close> in any letter case: the same outcomes and the same effects.
\<close>

theorem eligibility_gate:
  "eligible ps
     = filter (\<lambda>q. toLowerCase (isShared q) \<noteq> ''true'' \<and> toLowerCase (isShared q) \<noteq> ''false'')
         (normalize ps)
   \<and> workingParticipants cfg ps
     = take (maxPerRun cfg)
         (prioritize (applySharding (shardTotal cfg) (shardIndex cfg)
            (filter (\<lambda>q. toLowerCase (isShared q) \<noteq> ''true'' \<and> toLowerCase (isShared q) \<noteq> ''false'')
               (normalize ps))))
   \<and> (\<forall>q \<in> set (workingParticipants cfg ps).
         toLowerCase (isShared q) \<noteq> ''true'' \<and> toLowerCase (isShared q) \<noteq> ''false'')
   \<and> processParticipants e sh cfg cols ps w
     = processParticipants e sh cfg cols
         (filter (\<lambda>q. toLowerCase (isShared q) \<noteq> ''true'' \<and> toLowerCase (isShared q) \<noteq> ''false'') ps) w"
proof (intro conjI)
  show el: "eligible ps
     = filter (\<lambda>q. toLowerCase (isShared q) \<noteq> ''true'' \<and> toLowerCase (isShared q) \<noteq> ''false'')
         (normalize ps)"
  proof -
    have "notYetProcessed
        = (\<lambda>q. toLowerCase (isShared q) \<noteq> ''true'' \<and> toLowerCase (isShared q) \<noteq> ''false'')"
      by (auto simp: fun_eq_iff notYetProcessed_def Let_def)
    then show ?thesis by (simp add: eligible_def)
  qed
  show "workingParticipants cfg ps
     = take (maxPerRun cfg)
         (prioritize (applySharding (shardTotal cfg) (shardIndex cfg)
            (filter (\<lambda>q. toLowerCase (isShared q) \<noteq> ''true'' \<and> toLowerCase (isShared q) \<noteq> ''false'')
               (normalize ps))))"
    by (simp add: workingParticipants_def el)
  show "\<forall>q \<in> set (workingParticipants cfg ps).
         toLowerCase (isShared q) \<noteq> ''true'' \<and> toLowerCase (isShared q) \<noteq> ''false''"
    using workingParticipants_subset [of cfg ps] by (auto simp: el)
  show "processParticipants e sh cfg cols ps w
     = processParticipants e sh cfg cols
         (filter (\<lambda>q. toLowerCase (isShared q) \<noteq> ''true'' \<and> toLowerCase (isShared q) \<noteq> ''false'') ps) w"
    by (simp add: processParticipants_def workingParticipants_filter eligible_filter)
qed

theorem eligibility_gate_witness:
  "eligible [rowBudi, rowDone, rowFailed] = [normalizeOne rowBudi]
   \<and> workingParticipants cfg0 [rowBudi, rowDone, rowFailed] = [normalizeOne rowBudi]
   \<and> toLowerCase (isShared (normalizeOne rowBudi)) \<noteq> ''true''
   \<and> toLowerCase (isShared (normalizeOne rowBudi)) \<noteq> ''false''
   \<and> processParticipants quietDrive goodSheet cfg0 cols0 [rowBudi, rowDone, rowFailed] w0
     = processParticipants quietDrive goodSheet cfg0 cols0 [rowBudi] w0"
proof -
  have f: "filter (\<lambda>q. toLowerCase (isShared q) \<noteq> ''true'' \<and> toLowerCase (isShared q) \<noteq> ''false'')
      [rowBudi, rowDone, rowFailed] = [rowBudi]"
    by code_simp
  have n: "filter (\<lambda>q. toLowerCase (isShared q) \<noteq> ''true'' \<and> toLowerCase (isShared q) \<noteq> ''false'')
      (normalize [rowBudi, rowDone, rowFailed]) = [normalizeOne rowBudi]"
    by code_simp
  have t: "take (maxPerRun cfg0) (prioritize (applySharding (shardTotal cfg0) (shardIndex cfg0)
      [normalizeOne rowBudi])) = [normalizeOne rowBudi]"
    by code_simp
  from eligibility_gate [of "[rowBudi, rowDone, rowFailed]" cfg0 quietDrive goodSheet cols0 w0] f n t
  show ?thesis by simp
qed

section \<open>Properties of the validation step\<close>

lemma level_names: "toUpperCase ''info'' = ''INFO''" "toUpperCase ''error'' = ''ERROR''"
  "toUpperCase ''debug'' = ''DEBUG''"
  by code_simp+


lemma eligible_nonempty:
  "eligible (filter (\<lambda>p. trim (nama p) \<noteq> [] \<and> trim (email p) \<noteq> []) ps) = eligible ps"
  by (induction ps)
     (auto simp: eligible_def normalize_def normalizeOne_def truthy_def toLowerCase_def)

text \<open>
  Claim C3, as amended. A record whose name or email is empty after trimming is removed by
  the normalisation filter before the cycle starts: a cycle over a sheet is the cycle over
  the sheet without these records, with the same outcomes and the same effects, so such a
  record gets no outcome and nothing is written for it. A record that is processed has a
  non-empty name and email; when its email fails the format check or is not a Gmail
  address, the outcome is the terminal skip, and the step does exactly three things:
  it writes \<open>FALSE\<close> to the status column, the dated reason to the last-log column, and one
  line to the log. It makes no other call, so it never reaches the resolution step.
\<close>

theorem empty_fields_dropped:
  "processParticipants e sh cfg cols ps w
     = processParticipants e sh cfg cols
         (filter (\<lambda>p. trim (nama p) \<noteq> [] \<and> trim (email p) \<noteq> []) ps) w
   \<and> (\<forall>q \<in> set (workingParticipants cfg ps). nama q \<noteq> [] \<and> email q \<noteq> [])
   \<and> (0 \<le> isSharedCol cols \<and> 0 \<le> lastLogCol cols
        \<and> (\<not> isValidEmail (email p) \<or> \<not> isGmail (email p))
      \<longrightarrow> fst (processOne e sh cfg cols seen p w)
            = (if \<not> isValidEmail (email p) then SkippedInvalidEmail else SkippedNotGmail)
        \<and> fst (snd (processOne e sh cfg cols seen p w)) = seen
        \<and> since w (snd (snd (processOne e sh cfg cols seen p w)))
            = [ValuesUpdate (cellRange cfg (toCol (nat (isSharedCol cols))) (rowIndex p)) ''FALSE'',
               ValuesUpdate (cellRange cfg (toCol (nat (lastLogCol cols))) (rowIndex p))
                 (''['' @ localTimestamp e
                     (now w + int (fst (sh (calls w)
                        (cellRange cfg (toCol (nat (isSharedCol cols))) (rowIndex p)) ''FALSE'')))
                  @ ''] SKIP: ''
                  @ (if \<not> isValidEmail (email p) then ''INVALID EMAIL FORMAT''
                     else ''NOT GMAIL ACCOUNT'')
                  @ '' '' @ sq @ email p @ sq @ '' (0ms)''),
               LogLine ''INFO''
                 (''Row '' @ showNat (rowIndex p) @ '' SKIP ''
                  @ (if \<not> isValidEmail (email p) then ''INVALID EMAIL FORMAT''
                     else ''NOT GMAIL ACCOUNT'')
                  @ '': '' @ email p @ '' - Time: 0ms'')])"
proof (intro conjI impI)
  show "processParticipants e sh cfg cols ps w
     = processParticipants e sh cfg cols
         (filter (\<lambda>p. trim (nama p) \<noteq> [] \<and> trim (email p) \<noteq> []) ps) w"
    by (simp add: processParticipants_def workingParticipants_def eligible_nonempty)
next
  have "set (eligible ps) \<subseteq> set (normalize ps)"
    by (auto simp: eligible_def)
  then show "\<forall>q \<in> set (workingParticipants cfg ps). nama q \<noteq> [] \<and> email q \<noteq> []"
    using workingParticipants_subset [of cfg ps] by (auto simp: normalize_def truthy_def)
next
  assume h: "0 \<le> isSharedCol cols \<and> 0 \<le> lastLogCol cols
        \<and> (\<not> isValidEmail (email p) \<or> \<not> isGmail (email p))"
  have z: "showInt 0 = ''0''"
    by code_simp
  from h show "fst (processOne e sh cfg cols seen p w)
            = (if \<not> isValidEmail (email p) then SkippedInvalidEmail else SkippedNotGmail)"
    by (auto simp: processOne_def Let_def)
  from h show "fst (snd (processOne e sh cfg cols seen p w)) = seen"
    by (auto simp: processOne_def Let_def)
  from h show "since w (snd (snd (processOne e sh cfg cols seen p w)))
            = [ValuesUpdate (cellRange cfg (toCol (nat (isSharedCol cols))) (rowIndex p)) ''FALSE'',
               ValuesUpdate (cellRange cfg (toCol (nat (lastLogCol cols))) (rowIndex p))
                 (''['' @ localTimestamp e
                     (now w + int (fst (sh (calls w)
                        (cellRange cfg (toCol (nat (isSharedCol cols))) (rowIndex p)) ''FALSE'')))
                  @ ''] SKIP: ''
                  @ (if \<not> isValidEmail (email p) then ''INVALID EMAIL FORMAT''
                     else ''NOT GMAIL ACCOUNT'')
                  @ '' '' @ sq @ email p @ sq @ '' (0ms)''),
               LogLine ''INFO''
                 (''Row '' @ showNat (rowIndex p) @ '' SKIP ''
                  @ (if \<not> isValidEmail (email p) then ''INVALID EMAIL FORMAT''
                     else ''NOT GMAIL ACCOUNT'')
                  @ '': '' @ email p @ '' - Time: 0ms'')]"
    by (auto simp: processOne_def Let_def updateCellByIndex_def updateCell_def remote_def
        emit_def writeLog_def since_def stamped_def level_names z)
qed

theorem empty_fields_dropped_witness:
  "processParticipants quietDrive goodSheet cfg0 cols0 [rowNoName, rowNoMail, rowBadMail] w0
     = processParticipants quietDrive goodSheet cfg0 cols0 [rowBadMail] w0
   \<and> workingParticipants cfg0 [rowNoName, rowNoMail, rowBadMail] = [normalizeOne rowBadMail]
   \<and> nama (normalizeOne rowBadMail) \<noteq> [] \<and> email (normalizeOne rowBadMail) \<noteq> []
   \<and> fst (processOne quietDrive goodSheet cfg0 cols0 [] (normalizeOne rowBadMail) w0)
       = SkippedInvalidEmail
   \<and> since w0 (snd (snd (processOne quietDrive goodSheet cfg0 cols0 [] (normalizeOne rowBadMail) w0)))
       = [ValuesUpdate ''Sheet1!D5'' ''FALSE'',
          ValuesUpdate ''Sheet1!F5''
            (''[01/01/2025, 00.00.00] SKIP: INVALID EMAIL FORMAT '' @ sq @ ''cici-at-gmail'' @ sq
             @ '' (0ms)''),
          LogLine ''INFO'' ''Row 5 SKIP INVALID EMAIL FORMAT: cici-at-gmail - Time: 0ms'']"
proof -
  have f: "filter (\<lambda>p. trim (nama p) \<noteq> [] \<and> trim (email p) \<noteq> []) [rowNoName, rowNoMail, rowBadMail]
      = [rowBadMail]"
    by code_simp
  have v: "\<not> isValidEmail (email (normalizeOne rowBadMail))"
    by code_simp
  have h: "0 \<le> isSharedCol cols0 \<and> 0 \<le> lastLogCol cols0
        \<and> (\<not> isValidEmail (email (normalizeOne rowBadMail))
            \<or> \<not> isGmail (email (normalizeOne rowBadMail)))"
    using v by (simp add: cols0_def)
  have wp: "workingParticipants cfg0 [rowNoName, rowNoMail, rowBadMail] = [normalizeOne rowBadMail]"
    by code_simp
  have tr: "since w0 (snd (snd (processOne quietDrive goodSheet cfg0 cols0 [] (normalizeOne rowBadMail) w0)))
       = [ValuesUpdate ''Sheet1!D5'' ''FALSE'',
          ValuesUpdate ''Sheet1!F5''
            (''[01/01/2025, 00.00.00] SKIP: INVALID EMAIL FORMAT '' @ sq @ ''cici-at-gmail'' @ sq
             @ '' (0ms)''),
          LogLine ''INFO'' ''Row 5 SKIP INVALID EMAIL FORMAT: cici-at-gmail - Time: 0ms'']"
    by code_simp
  from empty_fields_dropped [of quietDrive goodSheet cfg0 cols0 "[rowNoName, rowNoMail, rowBadMail]"
      w0 "normalizeOne rowBadMail" "[]"] f v h wp tr
  show ?thesis by simp
qed

text \<open>
  The claim as it stands fails for the records it is about: a sheet whose only record has
  a blank name gives a cycle with no outcome and no write to the sheet.
\<close>

theorem empty_name_counterexample:
  "trim (nama rowNoName) = []
   \<and> fst (processParticipants quietDrive goodSheet cfg0 cols0 [rowNoName] w0) = []
   \<and> since w0 (snd (processParticipants quietDrive goodSheet cfg0 cols0 [rowNoName] w0))
       = [LogLine ''INFO'' ''Processing 0 participants. parentFolderId='',
          LogLine ''INFO'' ''Summary: total=0 done=0 skipped=0 errors=0 successRate=0%'']"
  by code_simp

section \<open>Properties of the retry loops\<close>













lemma throttle_fields:
  "calls (throttle e cfg w) = calls w"
  "lastApiCallAt (throttle e cfg w) = now (throttle e cfg w)"
  "now (throttle e cfg w) = now w + throttleSleep e cfg w"
  by (simp_all add: throttleSleep_def throttle_def Let_def sleep_def emit_def)


lemma dlog_fields:
  "calls (dlog cfg args w) = calls w" "now (dlog cfg args w) = now w"
  "lastApiCallAt (dlog cfg args w) = lastApiCallAt w"
  by (simp_all add: dlog_def writeLog_def emit_def)


lemma remote_fields:
  "calls (remote ev lat w) = calls w + 1" "now (remote ev lat w) = now w + int lat"
  "lastApiCallAt (remote ev lat w) = lastApiCallAt w"
  by (simp_all add: remote_def emit_def)

lemma isRetryableRateLimit_iff:
  "isRetryableRateLimit err \<longleftrightarrow>
     errStatus err = Some 429
     \<or> (errStatus err = Some 403
         \<and> (includesStr (firstReason err) ''rateLimitExceeded''
            \<or> includesStr (firstReason err) ''userRateLimitExceeded''
            \<or> includesStr (firstReason err) ''sharingRateLimitExceeded''))"
  by (simp add: isRetryableRateLimit_def Let_def)


lemma sleep_fields:
  "calls (sleep kind ms w) = calls w" "now (sleep kind ms w) = now w + ms"
  "lastApiCallAt (sleep kind ms w) = lastApiCallAt w" "draws (sleep kind ms w) = draws w"
  by (simp_all add: sleep_def emit_def)



lemma isRetryableRateLimit_spec: "isRetryableRateLimit err = rateLimitFailure err"
  by (simp add: isRetryableRateLimit_iff rateLimitFailure_def)





section \<open>Traces\<close>

lemma only_refl: "only P w w"
  by (simp add: only_def)

lemma only_trans: "only P w a \<Longrightarrow> only P a b \<Longrightarrow> only P w b"
  by (auto simp: only_def)



lemma since_trans: "extends w a \<Longrightarrow> extends a b \<Longrightarrow> since w b = since w a @ since a b"
  by (auto simp: extends_def only_def since_def)

lemma since_self: "since w w = []"
  by (simp add: since_def)



text \<open>The steps of a run, each as a rule that prolongs it.\<close>

lemma only_emit: "only P w x \<Longrightarrow> P ev \<Longrightarrow> only P w (emit ev x)"
  by (auto simp: only_def emit_def)

lemma only_draws [quiet]: "only P w x \<Longrightarrow> only P w (x\<lparr>draws := d\<rparr>)"
  by (simp add: only_def)

lemma only_sleep [quiet]: "only P w x \<Longrightarrow> P (Sleep kind ms) \<Longrightarrow> only P w (sleep kind ms x)"
  by (auto simp: only_def sleep_def emit_def)

lemma only_remote [quiet]: "only P w x \<Longrightarrow> P ev \<Longrightarrow> only P w (remote ev lat x)"
  by (auto simp: only_def remote_def emit_def)

lemma only_writeLog [quiet]:
  "only P w x \<Longrightarrow> P (LogLine (toUpperCase level) message) \<Longrightarrow> only P w (writeLog message level x)"
  by (auto simp: only_def writeLog_def emit_def)

lemma only_dlog [quiet]:
  "only P w x \<Longrightarrow> (\<And>l m. P (LogLine l m)) \<Longrightarrow> only P w (dlog cfg args x)"
  by (simp add: dlog_def only_writeLog)

lemma only_throttle [quiet]:
  "only P w x \<Longrightarrow> (\<And>k ms. P (Sleep k ms)) \<Longrightarrow> only P w (throttle e cfg x)"
  by (auto simp: only_def throttle_def Let_def sleep_def emit_def)

lemma only_updateCell [quiet]:
  "only P w x \<Longrightarrow> P (ValuesUpdate (cellRange cfg col row) v) \<Longrightarrow> only P w (updateCell sh cfg row col v x)"
  by (simp add: updateCell_def Let_def only_remote)

lemma only_updateCellByIndex [quiet]:
  "only P w x \<Longrightarrow> (\<And>r. P (ValuesUpdate r v)) \<Longrightarrow> (\<And>l m. P (LogLine l m))
   \<Longrightarrow> only P w (updateCellByIndex sh cfg colIndex row v label x)"
  by (simp add: updateCellByIndex_def only_updateCell only_writeLog)

lemma silent_simps [simp]:
  "silent (Sleep k ms)" "silent (FilesList q t)" "silent (PermissionsList f)"
  "silent (LogLine l m)" "\<not> silent (PermissionsCreate f r a)" "\<not> silent (ValuesUpdate g v)"
  by (simp_all add: silent_def)

lemma only_hasPermissionLoop [quiet]:
  "only P u w \<Longrightarrow> (\<And>ev. silent ev \<Longrightarrow> P ev)
   \<Longrightarrow> only P u (snd (hasPermissionLoop e cfg fid mail role attempt w))"
proof (induction e cfg fid mail role attempt w rule: hasPermissionLoop.induct)
  case (1 e cfg fid mail role attempt w)
  note ih = "1.IH" [OF refl refl refl _ refl, simplified]
  show ?case
    using "1.prems"
    by (subst hasPermissionLoop.simps) (auto simp: Let_def split: sum.splits intro!: quiet ih)
qed

lemma only_hasPermission [quiet]:
  "only P u w \<Longrightarrow> (\<And>ev. silent ev \<Longrightarrow> P ev)
   \<Longrightarrow> only P u (snd (hasPermission e cfg fid mail role w))"
  using only_hasPermissionLoop [of P u w e cfg fid mail role 0]
  by (auto simp: hasPermission_def split: prod.splits sum.splits)

lemma only_globalAttempt [quiet]:
  "only P u w \<Longrightarrow> (\<And>ev. silent ev \<Longrightarrow> P ev)
   \<Longrightarrow> only P u (snd (globalAttempt e cfg query targetLower attempt w))"
proof (induction e cfg query targetLower attempt w rule: globalAttempt.induct)
  case (1 e cfg query targetLower attempt w)
  note ih = "1.IH" [OF refl refl refl _ refl, simplified]
  show ?case
    using "1.prems"
    by (subst globalAttempt.simps)
       (auto simp: Let_def split: sum.splits option.splits intro!: quiet ih)
qed

lemma only_globalSearch [quiet]:
  "only P u w \<Longrightarrow> (\<And>ev. silent ev \<Longrightarrow> P ev)
   \<Longrightarrow> only P u (snd (globalSearch e cfg targetLower terms w))"
proof (induction terms arbitrary: w)
  case Nil
  then show ?case by simp
next
  case (Cons searchTerm terms)
  have "only P u (snd (globalAttempt e cfg (globalQuery searchTerm) targetLower 0 w))"
    using Cons.prems by (rule only_globalAttempt)
  then show ?case using Cons.IH Cons.prems(2)
    by (auto split: prod.splits option.splits)
qed

lemma only_listSubfolders [quiet]:
  "only P u w \<Longrightarrow> (\<And>ev. silent ev \<Longrightarrow> P ev)
   \<Longrightarrow> only P u (snd (listSubfolders e cfg deadline parentId pageToken all w))"
proof (induction e cfg deadline parentId pageToken all w rule: listSubfolders.induct)
  case (1 e cfg deadline parentId pageToken all w)
  define response where
    "response = filesList e (calls (throttle e cfg w)) (childrenQuery parentId) pageToken"
  define w2 where
    "w2 = remote (FilesList (childrenQuery parentId) pageToken) (fst response) (throttle e cfg w)"
  have n2: "only P u w2"
    using "1.prems" by (auto simp: w2_def intro!: quiet)
  show ?case
  proof (cases "deadline \<le> now w")
    case True
    then show ?thesis using "1.prems" by (subst listSubfolders.simps) simp
  next
    case live: False
    show ?thesis
    proof (cases "snd response")
      case (Inl err)
      then show ?thesis using live n2
        by (subst listSubfolders.simps) (simp add: Let_def response_def w2_def)
    next
      case (Inr page)
      show ?thesis
      proof (cases "snd page")
        case None
        then show ?thesis using live n2 Inr
          by (subst listSubfolders.simps) (simp add: Let_def response_def w2_def)
      next
        case (Some nextPageToken)
        show ?thesis
        proof (cases "truthy nextPageToken")
          case False
          then show ?thesis using live n2 Inr Some
            by (subst listSubfolders.simps) (simp add: Let_def response_def w2_def)
        next
          case True
          have "only P u (snd (listSubfolders e cfg deadline parentId (Some nextPageToken)
              (all @ fst page) w2))"
            using "1.IH" [OF live refl refl refl, of page nextPageToken] Inr Some True n2 "1.prems" (2)
            by (simp add: response_def w2_def)
          then show ?thesis using live Inr Some True
            by (subst listSubfolders.simps) (simp add: Let_def response_def w2_def)
        qed
      qed
    qed
  qed
qed

lemma only_bfs [quiet]:
  "only P u w \<Longrightarrow> (\<And>ev. silent ev \<Longrightarrow> P ev)
   \<Longrightarrow> only P u (snd (bfs e cfg deadline targetLower queue w))"
proof (induction e cfg deadline targetLower queue w rule: bfs.induct)
  case (1 e cfg deadline targetLower w)
  then show ?case by (simp add: bfs.simps)
next
  case (2 e cfg deadline targetLower current queue w)
  note ok = "2.prems" (2)
  obtain r w1 where ls: "listSubfolders e cfg deadline (fst current) None [] w = (r, w1)"
    by fastforce
  have n1: "only P u w1"
    using only_listSubfolders [OF "2.prems", of e cfg deadline "fst current" None "[]"] ls
    by simp
  show ?case
  proof (cases "3 < snd current")
    case True
    then show ?thesis using "2.IH" (1) [OF True "2.prems"] by (simp add: bfs.simps)
  next
    case shallow: False
    show ?thesis
    proof (cases r)
      case None
      then show ?thesis using shallow ls n1 by (simp add: bfs.simps)
    next
      case (Some listed)
      show ?thesis
      proof (cases listed)
        case (Inr children)
        show ?thesis
        proof (cases "find (\<lambda>f. toLowerCase (fileName f) = targetLower) children")
          case (Some hit)
          then show ?thesis using shallow ls n1 \<open>r = Some listed\<close> Inr
            by (simp add: bfs.simps)
        next
          case None
          from "2.IH" (4) [OF shallow ls [symmetric] \<open>r = Some listed\<close> Inr None n1 ok]
          show ?thesis using shallow ls \<open>r = Some listed\<close> Inr None
            by (simp add: bfs.simps)
        qed
      next
        case (Inl err)
        show ?thesis
        proof (cases "isRetryableRateLimit err")
          case True
          have "only P u (sleep SoftWait 1000 w1)" using n1 ok by (auto intro!: quiet)
          from "2.IH" (2) [OF shallow ls [symmetric] \<open>r = Some listed\<close> Inl True this ok]
          show ?thesis using shallow ls \<open>r = Some listed\<close> Inl True
            by (simp add: bfs.simps)
        next
          case False
          have "only P u (dlog cfg [''files.list(children) error:'', formatErrorSummary err] w1)"
            using n1 ok by (auto intro!: quiet)
          from "2.IH" (3) [OF shallow ls [symmetric] \<open>r = Some listed\<close> Inl False this ok]
          show ?thesis using shallow ls \<open>r = Some listed\<close> Inl False
            by (simp add: bfs.simps)
        qed
      qed
    qed
  qed
qed

lemma only_findFolderByNameInternal [quiet]:
  "only P u w \<Longrightarrow> (\<And>ev. silent ev \<Longrightarrow> P ev)
   \<Longrightarrow> only P u (snd (findFolderByNameInternal e cfg deadline name parent w))"
  using only_globalSearch [of P u w e cfg "toLowerCase name" "searchVariations name"]
  by (auto simp: findFolderByNameInternal_def Let_def split: prod.splits intro!: quiet)

lemma only_findFolderByNameFallback [quiet]:
  "only P u w \<Longrightarrow> (\<And>ev. silent ev \<Longrightarrow> P ev)
   \<Longrightarrow> only P u (snd (findFolderByNameFallback e cfg name parent w))"
  using only_findFolderByNameInternal [of P u w e cfg "now w + 30000" name parent]
  by (auto simp: findFolderByNameFallback_def raceWithTimer_def Let_def
      split: sum.splits option.splits intro!: quiet)

lemma only_findFolderByName [quiet]:
  "only P u w \<Longrightarrow> (\<And>ev. silent ev \<Longrightarrow> P ev)
   \<Longrightarrow> only P u (snd (findFolderByName e cfg name parent w))"
  by (auto simp: findFolderByName_def Let_def split: option.splits intro!: quiet)

lemma only_resolveFolder [quiet]:
  "only P u w \<Longrightarrow> (\<And>ev. silent ev \<Longrightarrow> P ev)
   \<Longrightarrow> only P u (fst (snd (resolveFolder e cfg p w)))"
  by (auto simp: resolveFolder_def Let_def intro!: quiet)

lemma only_grantLoop [quiet]:
  "only P u w \<Longrightarrow> (\<And>ev. \<not> isUpdate ev \<Longrightarrow> P ev)
   \<Longrightarrow> only P u (snd (grantLoop e cfg fid mail attempt w))"
proof (induction e cfg fid mail attempt w rule: grantLoop.induct)
  case (1 e cfg fid mail attempt w)
  note ih = "1.IH" [OF refl refl refl _ refl, simplified]
  show ?case
    using "1.prems"
    by (subst grantLoop.simps) (auto simp: Let_def split: sum.splits intro!: quiet ih)
qed

lemma only_grantPermission [quiet]:
  "only P u w \<Longrightarrow> (\<And>ev. \<not> isUpdate ev \<Longrightarrow> P ev)
   \<Longrightarrow> only P u (snd (grantPermission e cfg fid mail w))"
  by (auto simp: grantPermission_def intro!: quiet)

lemma only_recordError [quiet]:
  "only P u w \<Longrightarrow> (\<And>ev. \<not> isCreate ev \<Longrightarrow> P ev)
   \<Longrightarrow> only P u (recordError e sh cfg cols p t0 t1 error w)"
  by (auto simp: recordError_def Let_def intro!: quiet)

section \<open>Properties of the permission check\<close>


lemma extends_updateCellByIndex:
  "extends w x \<Longrightarrow> extends w (updateCellByIndex sh cfg c row v label x)"
  unfolding extends_def by (rule only_updateCellByIndex) simp_all

lemma extends_writeLog: "extends w x \<Longrightarrow> extends w (writeLog message level x)"
  unfolding extends_def by (rule only_writeLog) simp_all




section \<open>Properties of a failed permission check\<close>

text \<open>One failing attempt of the permission check.\<close>

lemma hasPermissionLoop_fail_step:
  assumes r: "permissionsList e (calls w) fid = (lat, Inl err)"
  shows "\<exists>w3. calls w3 = calls w + 1
      \<and> hasPermissionLoop e cfg fid mail role attempt w =
         (if isRetryableRateLimit err \<and> attempt + 1 < 5
          then hasPermissionLoop e cfg fid mail role (attempt + 1)
                 (sleep Backoff (min 60000 (2 ^ (attempt + 1) * 1000) + int (floorRandom e (draws w3) 500))
                    (w3\<lparr>draws := draws w3 + 1\<rparr>))
          else (Inl (wrapError ''drive.permissions.list'' (fid, mail, role) err), w3))"
proof -
  define w3 where "w3 = dlog cfg [''permissions.list error:'', formatErrorSummary err]
      (remote (PermissionsList fid) lat (throttle e cfg w))"
  have c: "calls w3 = calls w + 1"
    by (simp add: w3_def dlog_fields remote_fields throttle_fields)
  have "hasPermissionLoop e cfg fid mail role attempt w =
         (if isRetryableRateLimit err \<and> attempt + 1 < 5
          then hasPermissionLoop e cfg fid mail role (attempt + 1)
                 (sleep Backoff (min 60000 (2 ^ (attempt + 1) * 1000) + int (floorRandom e (draws w3) 500))
                    (w3\<lparr>draws := draws w3 + 1\<rparr>))
          else (Inl (wrapError ''drive.permissions.list'' (fid, mail, role) err), w3))"
    using r by (subst hasPermissionLoop.simps) (simp add: Let_def w3_def throttle_fields)
  then show ?thesis using c by blast
qed

text \<open>When every list call fails, the loop ends with an error after at most
  \<open>5 - attempt\<close> calls; when every failure is retryable, after exactly that many.\<close>

lemma hasPermissionLoop_fails:
  assumes fail: "\<forall>k. \<exists>lat err. permissionsList e k fid = (lat, Inl err)"
  shows "n = 4 - attempt \<Longrightarrow> attempt < 5 \<Longrightarrow>
     \<exists>err w'. hasPermissionLoop e cfg fid mail role attempt w = (Inl err, w')
       \<and> calls w < calls w' \<and> calls w' \<le> calls w + (5 - attempt)"
proof (induction n arbitrary: attempt w)
  case 0
  then have a: "attempt = 4" by simp
  obtain lat err where r: "permissionsList e (calls w) fid = (lat, Inl err)"
    using fail by blast
  obtain w3 where s: "calls w3 = calls w + 1"
      "hasPermissionLoop e cfg fid mail role attempt w =
         (if isRetryableRateLimit err \<and> attempt + 1 < 5
          then hasPermissionLoop e cfg fid mail role (attempt + 1)
                 (sleep Backoff (min 60000 (2 ^ (attempt + 1) * 1000) + int (floorRandom e (draws w3) 500))
                    (w3\<lparr>draws := draws w3 + 1\<rparr>))
          else (Inl (wrapError ''drive.permissions.list'' (fid, mail, role) err), w3))"
    using hasPermissionLoop_fail_step [OF r, of cfg mail role attempt] by blast
  show ?case using s a by simp
next
  case (Suc n)
  from Suc.prems have a: "attempt + 1 < 5" "n = 4 - (attempt + 1)" by simp_all
  obtain lat err where r: "permissionsList e (calls w) fid = (lat, Inl err)"
    using fail by blast
  obtain w3 where s: "calls w3 = calls w + 1"
      "hasPermissionLoop e cfg fid mail role attempt w =
         (if isRetryableRateLimit err \<and> attempt + 1 < 5
          then hasPermissionLoop e cfg fid mail role (attempt + 1)
                 (sleep Backoff (min 60000 (2 ^ (attempt + 1) * 1000) + int (floorRandom e (draws w3) 500))
                    (w3\<lparr>draws := draws w3 + 1\<rparr>))
          else (Inl (wrapError ''drive.permissions.list'' (fid, mail, role) err), w3))"
    using hasPermissionLoop_fail_step [OF r, of cfg mail role attempt] by blast
  define w4 where "w4 = sleep Backoff
      (min 60000 (2 ^ (attempt + 1) * 1000) + int (floorRandom e (draws w3) 500))
      (w3\<lparr>draws := draws w3 + 1\<rparr>)"
  have c4: "calls w4 = calls w + 1"
    by (simp add: w4_def sleep_fields s(1))
  have ar: "calls w4 + (5 - (attempt + 1)) = calls w + (5 - attempt)"
    using a(1) by (simp add: c4)
  show ?case
  proof (cases "isRetryableRateLimit err")
    case True
    then have step: "hasPermissionLoop e cfg fid mail role attempt w
        = hasPermissionLoop e cfg fid mail role (attempt + 1) w4"
      using s(2) a(1) by (simp add: w4_def)
    obtain err' w' where ih: "hasPermissionLoop e cfg fid mail role (attempt + 1) w4 = (Inl err', w')"
        "calls w4 < calls w'" "calls w' \<le> calls w4 + (5 - (attempt + 1))"
      using Suc.IH [OF a(2) a(1), of w4] by blast
    have "calls w < calls w'" "calls w' \<le> calls w + (5 - attempt)"
      using ih(2) ih(3) c4 ar by simp_all
    then show ?thesis unfolding step ih(1) by simp
  next
    case False
    then have "hasPermissionLoop e cfg fid mail role attempt w
        = (Inl (wrapError ''drive.permissions.list'' (fid, mail, role) err), w3)"
      using s(2) by simp
    then show ?thesis using s(1) a(1) by simp
  qed
qed

lemma hasPermissionLoop_exhaust:
  assumes fail: "\<forall>k. \<exists>lat err. permissionsList e k fid = (lat, Inl err) \<and> isRetryableRateLimit err"
  shows "n = 4 - attempt \<Longrightarrow> attempt < 5 \<Longrightarrow>
     calls (snd (hasPermissionLoop e cfg fid mail role attempt w)) = calls w + (5 - attempt)"
proof (induction n arbitrary: attempt w)
  case 0
  then have a: "attempt = 4" by simp
  obtain lat err where r: "permissionsList e (calls w) fid = (lat, Inl err)"
    using fail by blast
  obtain w3 where s: "calls w3 = calls w + 1"
      "hasPermissionLoop e cfg fid mail role attempt w =
         (if isRetryableRateLimit err \<and> attempt + 1 < 5
          then hasPermissionLoop e cfg fid mail role (attempt + 1)
                 (sleep Backoff (min 60000 (2 ^ (attempt + 1) * 1000) + int (floorRandom e (draws w3) 500))
                    (w3\<lparr>draws := draws w3 + 1\<rparr>))
          else (Inl (wrapError ''drive.permissions.list'' (fid, mail, role) err), w3))"
    using hasPermissionLoop_fail_step [OF r, of cfg mail role attempt] by blast
  show ?case using s a by simp
next
  case (Suc n)
  from Suc.prems have a: "attempt + 1 < 5" "n = 4 - (attempt + 1)" by simp_all
  obtain lat err where r: "permissionsList e (calls w) fid = (lat, Inl err)"
    and rt: "isRetryableRateLimit err"
    using fail by blast
  obtain w3 where s: "calls w3 = calls w + 1"
      "hasPermissionLoop e cfg fid mail role attempt w =
         (if isRetryableRateLimit err \<and> attempt + 1 < 5
          then hasPermissionLoop e cfg fid mail role (attempt + 1)
                 (sleep Backoff (min 60000 (2 ^ (attempt + 1) * 1000) + int (floorRandom e (draws w3) 500))
                    (w3\<lparr>draws := draws w3 + 1\<rparr>))
          else (Inl (wrapError ''drive.permissions.list'' (fid, mail, role) err), w3))"
    using hasPermissionLoop_fail_step [OF r, of cfg mail role attempt] by blast
  define w4 where "w4 = sleep Backoff
      (min 60000 (2 ^ (attempt + 1) * 1000) + int (floorRandom e (draws w3) 500))
      (w3\<lparr>draws := draws w3 + 1\<rparr>)"
  have c4: "calls w4 = calls w + 1"
    by (simp add: w4_def sleep_fields s(1))
  have ar: "calls w4 + (5 - (attempt + 1)) = calls w + (5 - attempt)"
    using a(1) by (simp add: c4)
  have step: "hasPermissionLoop e cfg fid mail role attempt w
      = hasPermissionLoop e cfg fid mail role (attempt + 1) w4"
    using s(2) a(1) rt by (simp add: w4_def)
  show ?case
    unfolding step using Suc.IH [OF a(2) a(1), of w4] ar by simp
qed

lemma hasPermission_fails:
  assumes fail: "\<forall>k. \<exists>lat err. permissionsList e k fid = (lat, Inl err)"
  shows "\<not> fst (hasPermission e cfg fid mail role w)"
    and "calls w < calls (snd (hasPermission e cfg fid mail role w))"
    and "calls (snd (hasPermission e cfg fid mail role w)) \<le> calls w + 5"
proof -
  obtain err w' where l: "hasPermissionLoop e cfg fid mail role 0 w = (Inl err, w')"
      "calls w < calls w'" "calls w' \<le> calls w + (5 - 0)"
    using hasPermissionLoop_fails [OF fail, of 4 0 cfg mail role w] by auto
  have h: "hasPermission e cfg fid mail role w = (False, w')"
    by (simp add: hasPermission_def l(1))
  show "\<not> fst (hasPermission e cfg fid mail role w)"
    "calls w < calls (snd (hasPermission e cfg fid mail role w))"
    "calls (snd (hasPermission e cfg fid mail role w)) \<le> calls w + 5"
    using l by (simp_all add: h)
qed

lemma hasPermission_exhaust:
  assumes fail: "\<forall>k. \<exists>lat err. permissionsList e k fid = (lat, Inl err) \<and> isRetryableRateLimit err"
  shows "calls (snd (hasPermission e cfg fid mail role w)) = calls w + 5"
proof -
  have "snd (hasPermission e cfg fid mail role w) = snd (hasPermissionLoop e cfg fid mail role 0 w)"
    by (auto simp: hasPermission_def split: prod.splits sum.splits)
  then show ?thesis
    using hasPermissionLoop_exhaust [OF fail, of 4 0 cfg mail role w] by simp
qed

lemma hasPermission_fails_once:
  assumes fail: "\<forall>k. \<exists>lat err. permissionsList e k fid = (lat, Inl err) \<and> \<not> isRetryableRateLimit err"
  shows "calls (snd (hasPermission e cfg fid mail role w)) = calls w + 1"
proof -
  obtain lat err where r: "permissionsList e (calls w) fid = (lat, Inl err)"
    and n: "\<not> isRetryableRateLimit err"
    using fail by blast
  obtain w3 where s: "calls w3 = calls w + 1"
      "hasPermissionLoop e cfg fid mail role 0 w =
         (if isRetryableRateLimit err \<and> (0::nat) + 1 < 5
          then hasPermissionLoop e cfg fid mail role (0 + 1)
                 (sleep Backoff (min 60000 (2 ^ ((0::nat) + 1) * 1000) + int (floorRandom e (draws w3) 500))
                    (w3\<lparr>draws := draws w3 + 1\<rparr>))
          else (Inl (wrapError ''drive.permissions.list'' (fid, mail, role) err), w3))"
    using hasPermissionLoop_fail_step [OF r, of cfg mail role 0] by blast
  show ?thesis using s n by (simp add: hasPermission_def)
qed

text \<open>The grant: every error it returns carries the tag of the create operation, and
  outside dry-run mode it makes the create call.\<close>

lemma grantLoop_error_tagged:
  "fst (grantLoop e cfg fid mail attempt w) = Inl err
   \<Longrightarrow> errOp err = Some ''drive.permissions.create'' \<and> errCtx err = Some (fid, mail, ''reader'')"
proof (induction e cfg fid mail attempt w rule: grantLoop.induct)
  case (1 e cfg fid mail attempt w)
  show ?case
    using "1.prems" "1.IH" [OF refl refl refl _ refl]
    by (subst (asm) grantLoop.simps)
       (auto simp: Let_def wrapError_def split: sum.splits if_splits)
qed

lemma extends_refl: "extends w w"
  by (simp add: extends_def only_refl)

lemma extends_trans: "extends w a \<Longrightarrow> extends a b \<Longrightarrow> extends w b"
  unfolding extends_def by (rule only_trans)

lemma mem_since_extends:
  assumes "ev \<in> set (since a b)" and "extends w a" and "extends a b" and "extends b c"
  shows "ev \<in> set (since w c)"
proof -
  have "since w c = since w b @ since b c"
    using extends_trans [OF assms(2) assms(3)] assms(4) by (rule since_trans)
  moreover have "since w b = since w a @ since a b"
    using assms(2) assms(3) by (rule since_trans)
  ultimately show ?thesis using assms(1) by simp
qed

lemma extends_grantLoop: "extends w (snd (grantLoop e cfg fid mail attempt w))"
  unfolding extends_def by (rule only_grantLoop) (simp_all add: only_refl)

lemma grantLoop_reaches_create:
  "PermissionsCreate fid ''reader'' mail \<in> set (since w (snd (grantLoop e cfg fid mail attempt w)))"
proof -
  define w1 where "w1 = throttle e cfg w"
  define response where "response = permissionsCreate e (calls w1) fid ''reader'' mail"
  define w2 where "w2 = remote (PermissionsCreate fid ''reader'' mail) (fst response) w1"
  have x1: "extends w w1"
    unfolding extends_def w1_def by (rule only_throttle) (simp_all add: only_refl)
  have x2: "extends w1 w2"
    unfolding extends_def w2_def by (rule only_remote) (simp_all add: only_refl)
  have m: "PermissionsCreate fid ''reader'' mail \<in> set (since w1 w2)"
    by (simp add: w2_def since_def remote_def emit_def)
  have x3: "extends w2 (snd (grantLoop e cfg fid mail attempt w))"
  proof (cases "snd response")
    case (Inr u)
    then have "snd (grantLoop e cfg fid mail attempt w) = w2"
      by (subst grantLoop.simps) (simp add: Let_def w1_def w2_def response_def)
    then show ?thesis by (simp add: extends_refl)
  next
    case (Inl err)
    define w3 where "w3 = dlog cfg [''permissions.create error:'', formatErrorSummary err] w2"
    have x: "extends w2 w3"
      unfolding extends_def w3_def by (rule only_dlog) (simp_all add: only_refl)
    show ?thesis
    proof (cases "isRetryableRateLimit err \<and> attempt + 1 < 6")
      case False
      then have "snd (grantLoop e cfg fid mail attempt w) = w3"
        using Inl
        by (subst grantLoop.simps) (auto simp: Let_def w1_def w2_def w3_def response_def)
      then show ?thesis using x by simp
    next
      case True
      define w4 where "w4 = sleep Backoff
        (min 60000 (2 ^ (attempt + 1) * 1000) + int (floorRandom e (draws w3) 500))
        (w3\<lparr>draws := draws w3 + 1\<rparr>)"
      have y: "extends w3 w4"
        unfolding extends_def w4_def by (intro only_sleep only_draws) (simp_all add: only_refl)
      have "snd (grantLoop e cfg fid mail attempt w) = snd (grantLoop e cfg fid mail (attempt + 1) w4)"
        using Inl True
        by (subst grantLoop.simps) (auto simp: Let_def w1_def w2_def w3_def w4_def response_def)
      then show ?thesis
        using extends_trans [OF extends_trans [OF x y] extends_grantLoop [of w4 e cfg fid mail "attempt + 1"]]
        by simp
    qed
  qed
  show ?thesis using mem_since_extends [OF m x1 x2 x3] .
qed

text \<open>The step after a check that answered \<open>false\<close>: the grant, and then the record of its
  result.\<close>

lemma shareFolder_unchecked:
  fixes e :: env and cfg :: config and sh :: sheet and cols :: columns and p :: participant
    and found :: string and w1 :: world
  assumes no: "\<And>x. \<not> fst (hasPermission e cfg found (email p) ''reader'' x)"
  defines "wa \<equiv> updateCellByIndex sh cfg (isFolderExistsCol cols) (rowIndex p) ''TRUE''
      ''isFolderExists'' w1"
  defines "wb \<equiv> (if \<not> truthy (folderId p)
      then updateCellByIndex sh cfg (folderIdCol cols) (rowIndex p) found ''FolderId'' wa else wa)"
  defines "wc \<equiv> snd (hasPermission e cfg found (email p) ''reader'' wb)"
  shows "fst (shareFolder e sh cfg cols p t0 t1 found w1)
      = (case fst (grantPermission e cfg found (email p) wc) of
           Inl error \<Rightarrow> Failed error
         | Inr res \<Rightarrow> if dryRun cfg then DryRun else Granted)"
    and "extends (snd (grantPermission e cfg found (email p) wc))
           (snd (shareFolder e sh cfg cols p t0 t1 found w1))"
    and "extends w1 wc"
proof -
  show "fst (shareFolder e sh cfg cols p t0 t1 found w1)
      = (case fst (grantPermission e cfg found (email p) wc) of
           Inl error \<Rightarrow> Failed error
         | Inr res \<Rightarrow> if dryRun cfg then DryRun else Granted)"
    by (auto simp: shareFolder_def Let_def no wa_def wb_def wc_def split: sum.splits)
  show "extends (snd (grantPermission e cfg found (email p) wc))
           (snd (shareFolder e sh cfg cols p t0 t1 found w1))"
    by (cases "truthy (folderId p)")
       (auto simp: shareFolder_def Let_def no wa_def wb_def wc_def extends_def
          split: sum.splits
          intro!: only_refl only_recordError only_sleep only_draws only_writeLog
            only_updateCellByIndex)
  show "extends w1 wc"
    by (auto simp: wa_def wb_def wc_def extends_def only_refl intro!: quiet)
qed

text \<open>
  Claim C10. \<open>hasPermission\<close> returns a boolean in every case: an error that leaves its
  retry loop becomes \<open>false\<close>. When every list call for the folder fails, the answer is
  \<open>false\<close> after at least one and at most 5 calls: after exactly 5 when every failure is
  retryable, after exactly one when none is. In the batch processor, for a record that
  passes the validation, is no duplicate and whose folder is resolved, such a failed check
  leads to the grant step: outside dry-run mode the permission-create call is made, and
  the outcome is \<open>Granted\<close>, \<open>DryRun\<close>, or the failure of the grant, an error tagged with the
  create operation. No error of the check is recorded.
\<close>

theorem failed_check_proceeds_to_grant:
  "fst (hasPermission e cfg fid mail role w)
     = (case fst (hasPermissionLoop e cfg fid mail role 0 w) of Inr b \<Rightarrow> b | Inl err \<Rightarrow> False)
   \<and> ((\<forall>k. \<exists>lat err. permissionsList e k fid = (lat, Inl err))
      \<longrightarrow> \<not> fst (hasPermission e cfg fid mail role w)
        \<and> calls w < calls (snd (hasPermission e cfg fid mail role w))
        \<and> calls (snd (hasPermission e cfg fid mail role w)) \<le> calls w + 5)
   \<and> ((\<forall>k. \<exists>lat err. permissionsList e k fid = (lat, Inl err) \<and> rateLimitFailure err)
      \<longrightarrow> \<not> fst (hasPermission e cfg fid mail role w)
        \<and> calls (snd (hasPermission e cfg fid mail role w)) = calls w + 5)
   \<and> ((\<forall>k. \<exists>lat err. permissionsList e k fid = (lat, Inl err) \<and> \<not> rateLimitFailure err)
      \<longrightarrow> \<not> fst (hasPermission e cfg fid mail role w)
        \<and> calls (snd (hasPermission e cfg fid mail role w)) = calls w + 1)
   \<and> ((\<forall>k. \<exists>lat err. permissionsList e k fid = (lat, Inl err))
        \<and> isValidEmail (email p) \<and> isGmail (email p)
        \<and> toLowerCase (nama p) @ ''|'' @ email p \<notin> set seen
        \<and> toLowerCase (isShared p) \<noteq> ''true''
        \<and> resolveFolder e cfg p w = (Inr (Some fid), w1, t) \<and> fid \<noteq> []
      \<longrightarrow> (case fst (processOne e sh cfg cols seen p w) of
            Failed err \<Rightarrow> \<not> dryRun cfg \<and> errOp err = Some ''drive.permissions.create''
                            \<and> errCtx err = Some (fid, email p, ''reader'')
          | Granted \<Rightarrow> \<not> dryRun cfg
          | DryRun \<Rightarrow> dryRun cfg
          | _ \<Rightarrow> False)
        \<and> (\<not> dryRun cfg \<longrightarrow>
             PermissionsCreate fid ''reader'' (email p)
               \<in> set (since w (snd (snd (processOne e sh cfg cols seen p w))))))"
proof (intro conjI impI)
  show "fst (hasPermission e cfg fid mail role w)
     = (case fst (hasPermissionLoop e cfg fid mail role 0 w) of Inr b \<Rightarrow> b | Inl err \<Rightarrow> False)"
    by (auto simp: hasPermission_def split: prod.splits sum.splits)
next
  assume f: "\<forall>k. \<exists>lat err. permissionsList e k fid = (lat, Inl err)"
  show "\<not> fst (hasPermission e cfg fid mail role w)"
    "calls w < calls (snd (hasPermission e cfg fid mail role w))"
    "calls (snd (hasPermission e cfg fid mail role w)) \<le> calls w + 5"
    using hasPermission_fails [OF f] by simp_all
next
  assume f: "\<forall>k. \<exists>lat err. permissionsList e k fid = (lat, Inl err) \<and> rateLimitFailure err"
  then have f1: "\<forall>k. \<exists>lat err. permissionsList e k fid = (lat, Inl err)"
    and f2: "\<forall>k. \<exists>lat err. permissionsList e k fid = (lat, Inl err) \<and> isRetryableRateLimit err"
    by (simp_all add: isRetryableRateLimit_spec) blast
  show "\<not> fst (hasPermission e cfg fid mail role w)"
    using hasPermission_fails(1) [OF f1] .
  show "calls (snd (hasPermission e cfg fid mail role w)) = calls w + 5"
    using hasPermission_exhaust [OF f2] .
next
  assume f: "\<forall>k. \<exists>lat err. permissionsList e k fid = (lat, Inl err) \<and> \<not> rateLimitFailure err"
  then have f1: "\<forall>k. \<exists>lat err. permissionsList e k fid = (lat, Inl err)"
    and f2: "\<forall>k. \<exists>lat err. permissionsList e k fid = (lat, Inl err) \<and> \<not> isRetryableRateLimit err"
    by (simp_all add: isRetryableRateLimit_spec) blast
  show "\<not> fst (hasPermission e cfg fid mail role w)"
    using hasPermission_fails(1) [OF f1] .
  show "calls (snd (hasPermission e cfg fid mail role w)) = calls w + 1"
    using hasPermission_fails_once [OF f2] .
next
  assume h: "(\<forall>k. \<exists>lat err. permissionsList e k fid = (lat, Inl err))
        \<and> isValidEmail (email p) \<and> isGmail (email p)
        \<and> toLowerCase (nama p) @ ''|'' @ email p \<notin> set seen
        \<and> toLowerCase (isShared p) \<noteq> ''true''
        \<and> resolveFolder e cfg p w = (Inr (Some fid), w1, t) \<and> fid \<noteq> []"
  define wa where "wa = updateCellByIndex sh cfg (isFolderExistsCol cols) (rowIndex p) ''TRUE''
      ''isFolderExists'' w1"
  define wb where "wb = (if \<not> truthy (folderId p)
      then updateCellByIndex sh cfg (folderIdCol cols) (rowIndex p) fid ''FolderId'' wa else wa)"
  define wc where "wc = snd (hasPermission e cfg fid (email p) ''reader'' wb)"
  define G where "G = grantPermission e cfg fid (email p) wc"
  define S where "S = shareFolder e sh cfg cols p (now w) t fid w1"
  have no: "\<And>x. \<not> fst (hasPermission e cfg fid (email p) ''reader'' x)"
    using hasPermission_fails(1) h by blast
  have s1: "fst S = (case fst G of Inl error \<Rightarrow> Failed error
                     | Inr res \<Rightarrow> if dryRun cfg then DryRun else Granted)"
    and s2: "extends (snd G) (snd S)" and s3: "extends w1 wc"
    unfolding S_def G_def wc_def wb_def wa_def
    using shareFolder_unchecked [of e cfg fid p, OF no] by simp_all
  have po: "processOne e sh cfg cols seen p w
      = (fst S, setAdd seen (toLowerCase (nama p) @ ''|'' @ email p), snd S)"
    using h by (simp add: processOne_def Let_def truthy_def S_def split: prod.splits)
  have x1: "extends w w1"
    using only_resolveFolder [of "\<lambda>ev. True" w w e cfg p] h
    by (simp add: only_refl extends_def)
  have x2: "extends wc (snd G)"
    unfolding G_def extends_def by (rule only_grantPermission) (simp_all add: only_refl)
  show "case fst (processOne e sh cfg cols seen p w) of
            Failed err \<Rightarrow> \<not> dryRun cfg \<and> errOp err = Some ''drive.permissions.create''
                            \<and> errCtx err = Some (fid, email p, ''reader'')
          | Granted \<Rightarrow> \<not> dryRun cfg
          | DryRun \<Rightarrow> dryRun cfg
          | _ \<Rightarrow> False"
  proof (cases "fst G")
    case (Inl error)
    then have nd: "\<not> dryRun cfg"
      by (auto simp: G_def grantPermission_def split: if_splits)
    then have "fst (grantLoop e cfg fid (email p) 0 wc) = Inl error"
      using Inl by (simp add: G_def grantPermission_def)
    then show ?thesis
      using grantLoop_error_tagged [of e cfg fid "email p" 0 wc error] nd
      by (simp add: po s1 Inl)
  next
    case (Inr res)
    then show ?thesis by (simp add: po s1)
  qed
  assume nd: "\<not> dryRun cfg"
  then have "snd G = snd (grantLoop e cfg fid (email p) 0 wc)"
    by (simp add: G_def grantPermission_def)
  then have m: "PermissionsCreate fid ''reader'' (email p) \<in> set (since wc (snd G))"
    using grantLoop_reaches_create [of fid "email p" wc e cfg 0] by simp
  show "PermissionsCreate fid ''reader'' (email p)
          \<in> set (since w (snd (snd (processOne e sh cfg cols seen p w))))"
    using mem_since_extends [OF m extends_trans [OF x1 s3] x2 s2] by (simp add: po)
qed

theorem failed_check_proceeds_to_grant_witness:
  "\<not> fst (hasPermission busyDrive cfg0 ''F1'' ''budi@gmail.com'' ''reader'' w0)
   \<and> calls (snd (hasPermission busyDrive cfg0 ''F1'' ''budi@gmail.com'' ''reader'' w0)) = 5
   \<and> \<not> fst (hasPermission brokenDrive cfg0 ''F1'' ''budi@gmail.com'' ''reader'' w0)
   \<and> calls (snd (hasPermission brokenDrive cfg0 ''F1'' ''budi@gmail.com'' ''reader'' w0)) = 1
   \<and> fst (processOne listDownDrive goodSheet cfg0 cols0 [] (normalizeOne rowBudi) w0) = Granted
   \<and> PermissionsCreate ''F1'' ''reader'' ''budi@gmail.com''
       \<in> set (since w0 (snd (snd (processOne listDownDrive goodSheet cfg0 cols0 []
                                     (normalizeOne rowBudi) w0))))
   \<and> fst (processOne busyDrive goodSheet cfg0 cols0 [] (normalizeOne rowBudi) w0)
       = Failed (rateLimited\<lparr>errOp := Some ''drive.permissions.create'',
                              errCtx := Some (''F1'', ''budi@gmail.com'', ''reader'')\<rparr>)"
proof -
  have h1: "\<forall>k. \<exists>lat err. permissionsList busyDrive k ''F1'' = (lat, Inl err) \<and> rateLimitFailure err"
    by (simp add: busyDrive_def quietDrive_def rateLimitFailure_def rateLimited_def)
  have h2: "\<forall>k. \<exists>lat err. permissionsList brokenDrive k ''F1'' = (lat, Inl err)
      \<and> \<not> rateLimitFailure err"
    by (simp add: brokenDrive_def quietDrive_def rateLimitFailure_def notFound404_def)
  have h3: "\<forall>k. \<exists>lat err. permissionsList listDownDrive k ''F1'' = (lat, Inl err)"
    by (simp add: listDownDrive_def quietDrive_def)
  have v: "isValidEmail (email (normalizeOne rowBudi))" "isGmail (email (normalizeOne rowBudi))"
    "toLowerCase (nama (normalizeOne rowBudi)) @ ''|'' @ email (normalizeOne rowBudi) \<notin> set []"
    "toLowerCase (isShared (normalizeOne rowBudi)) \<noteq> ''true''"
    "email (normalizeOne rowBudi) = ''budi@gmail.com''"
    by code_simp+
  have r: "resolveFolder listDownDrive cfg0 (normalizeOne rowBudi) w0 = (Inr (Some ''F1''), w0, 0)"
    by code_simp
  have nd: "\<not> dryRun cfg0" "calls w0 = 0"
    by (simp_all add: cfg0_def w0_def)
  have g: "fst (processOne listDownDrive goodSheet cfg0 cols0 [] (normalizeOne rowBudi) w0) = Granted"
    by code_simp
  have f: "fst (processOne busyDrive goodSheet cfg0 cols0 [] (normalizeOne rowBudi) w0)
       = Failed (rateLimited\<lparr>errOp := Some ''drive.permissions.create'',
                              errCtx := Some (''F1'', ''budi@gmail.com'', ''reader'')\<rparr>)"
    by code_simp
  from failed_check_proceeds_to_grant [of busyDrive cfg0 "''F1''" "''budi@gmail.com''" "''reader''" w0
      "normalizeOne rowBudi" "[]" w0 0 goodSheet cols0] h1
  have A: "\<not> fst (hasPermission busyDrive cfg0 ''F1'' ''budi@gmail.com'' ''reader'' w0)
     \<and> calls (snd (hasPermission busyDrive cfg0 ''F1'' ''budi@gmail.com'' ''reader'' w0)) = calls w0 + 5"
    by blast
  from failed_check_proceeds_to_grant [of brokenDrive cfg0 "''F1''" "''budi@gmail.com''" "''reader''" w0
      "normalizeOne rowBudi" "[]" w0 0 goodSheet cols0] h2
  have B: "\<not> fst (hasPermission brokenDrive cfg0 ''F1'' ''budi@gmail.com'' ''reader'' w0)
     \<and> calls (snd (hasPermission brokenDrive cfg0 ''F1'' ''budi@gmail.com'' ''reader'' w0)) = calls w0 + 1"
    by blast
  from failed_check_proceeds_to_grant [of listDownDrive cfg0 "''F1''" "''budi@gmail.com''" "''reader''"
      w0 "normalizeOne rowBudi" "[]" w0 0 goodSheet cols0] h3 v(1) v(2) v(3) v(4) r nd(1)
  have C: "PermissionsCreate ''F1'' ''reader'' (email (normalizeOne rowBudi))
       \<in> set (since w0 (snd (snd (processOne listDownDrive goodSheet cfg0 cols0 []
                                     (normalizeOne rowBudi) w0))))"
    by blast
  show ?thesis using A B C g f by (simp add: v(5) nd(2))
qed

section \<open>Properties of the resolver\<close>





text \<open>
  Claim C6. For every name and every parent folder, \<open>findFolderByName\<close> and its fallback
  return an identifier or not-found, never an error. When the fallback search has not
  finished by the 30-second deadline (it is still running, or it finishes at or after the
  deadline), the result is not-found; when it has finished before the deadline, the result
  is what the search found.
\<close>

theorem resolver_never_raises:
  "(\<exists>r w'. findFolderByName e cfg name parent w = (Inr r, w'))
   \<and> (\<exists>r w'. findFolderByNameFallback e cfg name parent w = (Inr r, w'))
   \<and> (fst (findFolderByNameInternal e cfg (now w + 30000) name parent w) = None
        \<or> now w + 30000 \<le> now (snd (findFolderByNameInternal e cfg (now w + 30000) name parent w))
      \<longrightarrow> fst (findFolderByNameFallback e cfg name parent w) = Inr None)
   \<and> (fst (findFolderByNameInternal e cfg (now w + 30000) name parent w) = Some found
        \<and> now (snd (findFolderByNameInternal e cfg (now w + 30000) name parent w)) < now w + 30000
      \<longrightarrow> fst (findFolderByNameFallback e cfg name parent w) = Inr found)"
proof -
  have f: "\<And>w. \<exists>r w'. findFolderByNameFallback e cfg name parent w = (Inr r, w')"
    by (auto simp: findFolderByNameFallback_def Let_def split: sum.splits)
  have n: "\<exists>r w'. findFolderByName e cfg name parent w = (Inr r, w')"
    using f by (auto simp: findFolderByName_def Let_def split: option.splits)
  have t: "fst (findFolderByNameInternal e cfg (now w + 30000) name parent w) = None
        \<or> now w + 30000 \<le> now (snd (findFolderByNameInternal e cfg (now w + 30000) name parent w))
      \<longrightarrow> fst (findFolderByNameFallback e cfg name parent w) = Inr None"
    by (auto simp: findFolderByNameFallback_def raceWithTimer_def Let_def
        split: sum.splits option.splits)
  have g: "fst (findFolderByNameInternal e cfg (now w + 30000) name parent w) = Some found
        \<and> now (snd (findFolderByNameInternal e cfg (now w + 30000) name parent w)) < now w + 30000
      \<longrightarrow> fst (findFolderByNameFallback e cfg name parent w) = Inr found"
    by (auto simp: findFolderByNameFallback_def raceWithTimer_def Let_def
        split: sum.splits option.splits)
  show ?thesis using f n t g by blast
qed

theorem resolver_never_raises_witness:
  "fst (findFolderByNameInternal busyDrive cfg0 (now w0 + 30000) ''Budi'' ''ROOT'' w0) = None
   \<and> fst (findFolderByNameFallback busyDrive cfg0 ''Budi'' ''ROOT'' w0) = Inr None
   \<and> fst (findFolderByNameInternal quietDrive cfg0 (now w0 + 30000) ''Budi'' ''ROOT'' w0) = Some None
   \<and> now (snd (findFolderByNameInternal quietDrive cfg0 (now w0 + 30000) ''Budi'' ''ROOT'' w0))
       = now w0 + 100
   \<and> fst (findFolderByNameFallback quietDrive cfg0 ''Budi'' ''ROOT'' w0) = Inr None"
proof -
  have a: "fst (findFolderByNameInternal busyDrive cfg0 (now w0 + 30000) ''Budi'' ''ROOT'' w0) = None"
    by code_simp
  have b: "fst (findFolderByNameInternal quietDrive cfg0 (now w0 + 30000) ''Budi'' ''ROOT'' w0)
      = Some None"
    by code_simp
  have c: "now (snd (findFolderByNameInternal quietDrive cfg0 (now w0 + 30000) ''Budi'' ''ROOT'' w0))
       = now w0 + 100"
    by code_simp
  from resolver_never_raises [of busyDrive cfg0 "''Budi''" "''ROOT''" w0] a
  have d: "fst (findFolderByNameFallback busyDrive cfg0 ''Budi'' ''ROOT'' w0) = Inr None"
    by blast
  from resolver_never_raises [of quietDrive cfg0 "''Budi''" "''ROOT''" w0 None] b c
  have e: "fst (findFolderByNameFallback quietDrive cfg0 ''Budi'' ''ROOT'' w0) = Inr None"
    by simp
  show ?thesis using a b c d e by simp
qed

end
